theory Spec2Isabelle
  imports Complex_Main "HOL-Library.Word" "HOL-Library.Sublist"
begin

section \<open>Data model of \<open>SceneSegDataset\<close> (data_handlers/scene_seg.py)\<close>

text \<open>
  Coordinates, radii, fractions and budgets are floating-point numbers in the source; here
  each is the real number that the float denotes.  Coordinates are only stored, compared
  and handed to the tree; where the source computes with doubles (the Mix3D count, the
  calibrated budget) the model rounds every operation.  A point is one row of a coordinate
  array.  The two shared counters of the regular sampler are one-element \<open>int64\<close> tensors
  and are modelled as 64-bit words read as signed.
\<close>

type_synonym point = "real list"

text \<open>A cloud as it travels through the pipeline: points, features, labels.\<close>

type_synonym cloud = "point list \<times> real list list \<times> int list"

datatype error = ValueError | IndexError | AttributeError | TypeError | RuntimeError

record dataset =
  data_sampler :: string
  chosen_set :: string
  in_radius :: real
  b_lim :: real
  use_cubes :: bool
  cylindric_input :: bool
  dim :: nat
  num_classes :: nat
  label_values :: "int list"
  ignored_labels :: "int list"
  mix3D :: real
  in_sub_size :: real
  init_sub_size :: real
  input_trees :: "point list list"
  input_features :: "real list list list"
  input_labels :: "int list list"
  input_z :: "point list list"
  all_inds :: "(nat \<times> nat) list"
  label_indices :: "(nat \<times> nat) list list"
  reg_sampling_i :: "64 word"
  reg_votes :: "64 word"
  reg_sample :: "(nat \<times> point) list option"

text \<open>
  \<open>chosen_set\<close> is the field \<open>self.set\<close>.  \<open>input_trees\<close> holds the data array of each
  scene's KDTree, \<open>input_z\<close> the height column(s) kept aside in cylindrical mode.
  \<open>reg_sample\<close> is the queue of the regular sampler: \<open>reg_sample_clouds\<close> and
  \<open>reg_sample_pts\<close>, always assigned together and indexed together, zipped into one list;
  it is \<open>None\<close> until \<open>new_reg_sampling_pts\<close> has run.

  Everything random or timed is read from a \<open>world\<close>: a tape of outcomes indexed by a
  counter that each draw advances, and the total time slept.
\<close>

record world =
  tick :: nat
  choice_at :: "nat \<Rightarrow> nat"
  normal_at :: "nat \<Rightarrow> nat \<Rightarrow> real"
  queue_at :: "nat \<Rightarrow> (nat \<times> point) list"
  slept :: real

subsection \<open>Library calls\<close>

text \<open>Indexing a Python list or an array by a non-negative index.\<close>

definition nth_res :: "'a list \<Rightarrow> nat \<Rightarrow> error + 'a" where
  "nth_res xs i = (if i < length xs then Inr (xs ! i) else Inl IndexError)"

text \<open>Indexing by a signed integer: negative indices count from the end.\<close>

definition py_index :: "'a list \<Rightarrow> int \<Rightarrow> error + 'a" where
  "py_index xs i =
     (let n = int (length xs)
      in if 0 \<le> i \<and> i < n then Inr (xs ! nat i)
         else if - n \<le> i \<and> i < 0 then Inr (xs ! nat (n + i))
         else Inl IndexError)"

text \<open>
  \<open>np.random.choice(n)\<close>: some value below \<open>n\<close>, an error when \<open>n\<close> is not positive.
  Every value below \<open>n\<close> is the outcome for some tape.
\<close>

definition np_random_choice :: "nat \<Rightarrow> world \<Rightarrow> error + nat \<times> world" where
  "np_random_choice n w =
     (if n = 0 then Inl ValueError
      else Inr (choice_at w (tick w) mod n, w\<lparr>tick := Suc (tick w)\<rparr>))"

text \<open>\<open>np.random.normal(scale=s, size=(1, n))\<close>.\<close>

definition np_random_normal :: "real \<Rightarrow> nat \<Rightarrow> world \<Rightarrow> error + point \<times> world" where
  "np_random_normal s n w =
     (if s < 0 then Inl ValueError
      else Inr (map (\<lambda>j. s * normal_at w (tick w) j) [0..<n], w\<lparr>tick := Suc (tick w)\<rparr>))"

section \<open>The center sampler\<close>

subsection \<open>\<open>prepare_label_inds\<close>\<close>

definition inds_with_label :: "int list list \<Rightarrow> int \<Rightarrow> (nat \<times> nat) list" where
  "inds_with_label clouds label =
     concat (map (\<lambda>cloud_ind.
        map (\<lambda>i. (cloud_ind, i))
          (filter (\<lambda>i. clouds ! cloud_ind ! i = label) [0..<length (clouds ! cloud_ind)]))
       [0..<length clouds])"

definition prepare_label_inds :: "dataset \<Rightarrow> error + dataset" where
  "prepare_label_inds ds =
     (if input_labels ds = [] then Inl ValueError
      else Inr (ds\<lparr>
        all_inds := concat (map (\<lambda>cloud_ind.
            map (\<lambda>i. (cloud_ind, i)) [0..<length (input_labels ds ! cloud_ind)])
          [0..<length (input_labels ds)]),
        label_indices := label_indices ds
          @ map (inds_with_label (input_labels ds)) (label_values ds)\<rparr>))"

subsection \<open>\<open>new_reg_sampling_pts\<close>\<close>

text \<open>
  The grid subsampling at a random offset and the random permutation are external; their
  joint outcome, the new queue, is read from the world.  \<open>torch.concat\<close> refuses an empty
  list of scenes.
\<close>

definition new_reg_sampling_pts :: "dataset \<Rightarrow> world \<Rightarrow> error + dataset \<times> world" where
  "new_reg_sampling_pts ds w =
     (if in_radius ds < 0 then Inl ValueError
      else if input_trees ds = [] then Inl RuntimeError
      else Inr (ds\<lparr>reg_sample := Some (queue_at w (tick w))\<rparr>, w\<lparr>tick := Suc (tick w)\<rparr>))"

subsection \<open>\<open>sample_input_center\<close>\<close>

text \<open>The result \<open>None\<close> of a sampler call is the sentinel \<open>(None, None)\<close>.\<close>

type_synonym center = "(nat \<times> point) option"

definition next_regular :: "dataset \<Rightarrow> world \<Rightarrow> error + center \<times> dataset \<times> world" where
  "next_regular ds w =
     (case reg_sample ds of
        None \<Rightarrow> Inl AttributeError
      | Some q \<Rightarrow>
          (case py_index q (sint (reg_sampling_i ds)) of
             Inl e \<Rightarrow> Inl e
           | Inr cp \<Rightarrow> Inr (Some cp, ds\<lparr>reg_sampling_i := reg_sampling_i ds + 1\<rparr>, w)))"

definition sample_regular :: "dataset \<Rightarrow> world \<Rightarrow> error + center \<times> dataset \<times> world" where
  "sample_regular ds w =
     (case reg_sample ds of
        None \<Rightarrow> Inl AttributeError
      | Some q \<Rightarrow>
          if int (length q) \<le> sint (reg_sampling_i ds) then
            if chosen_set ds = ''validation'' then
              (case new_reg_sampling_pts (ds\<lparr>reg_sampling_i := reg_sampling_i ds * 0\<rparr>) w of
                 Inl e \<Rightarrow> Inl e
               | Inr (ds1, w1) \<Rightarrow> next_regular (ds1\<lparr>reg_votes := reg_votes ds1 + 1\<rparr>) w1)
            else Inr (None, ds, w)
          else next_regular ds w)"

text \<open>The rejection loop of the class-balanced policy; it need not end.\<close>

partial_function (option) redraw_label ::
  "dataset \<Rightarrow> nat \<Rightarrow> world \<Rightarrow> (error + nat \<times> world) option" where
  "redraw_label ds rand_l w =
     (if int rand_l \<in> set (ignored_labels ds) then
        (case np_random_choice (num_classes ds) w of
           Inl e \<Rightarrow> Some (Inl e)
         | Inr (l, w1) \<Rightarrow> redraw_label ds l w1)
      else Some (Inr (rand_l, w)))"

definition pick_c_random :: "dataset \<Rightarrow> world \<Rightarrow> (error + (nat \<times> nat) \<times> world) option" where
  "pick_c_random ds w =
     (case np_random_choice (num_classes ds) w of
        Inl e \<Rightarrow> Some (Inl e)
      | Inr (l0, w0) \<Rightarrow>
          (case redraw_label ds l0 w0 of
             None \<Rightarrow> None
           | Some (Inl e) \<Rightarrow> Some (Inl e)
           | Some (Inr (rand_l, w1)) \<Rightarrow>
               Some (case nth_res (label_indices ds) rand_l of
                       Inl e \<Rightarrow> Inl e
                     | Inr l_inds \<Rightarrow>
                         (case np_random_choice (length l_inds) w1 of
                            Inl e \<Rightarrow> Inl e
                          | Inr (rand_ind, w2) \<Rightarrow> Inr (l_inds ! rand_ind, w2)))))"

definition pick_A_random :: "dataset \<Rightarrow> world \<Rightarrow> error + (nat \<times> nat) \<times> world" where
  "pick_A_random ds w =
     (case np_random_choice (length (input_features ds)) w of
        Inl e \<Rightarrow> Inl e
      | Inr (cloud_ind, w1) \<Rightarrow>
          (case np_random_choice (length (input_features ds ! cloud_ind)) w1 of
             Inl e \<Rightarrow> Inl e
           | Inr (point_ind, w2) \<Rightarrow> Inr ((cloud_ind, point_ind), w2)))"

definition pick_random :: "dataset \<Rightarrow> world \<Rightarrow> error + (nat \<times> nat) \<times> world" where
  "pick_random ds w =
     (case np_random_choice (length (all_inds ds)) w of
        Inl e \<Rightarrow> Inl e
      | Inr (rand_ind, w1) \<Rightarrow> Inr (all_inds ds ! rand_ind, w1))"

text \<open>
  The part shared by the three random policies: read the point, add the noise.  Outside
  cylindrical mode \<open>center_point\<close> is a view of one row of the tree's data array and
  \<open>+=\<close> adds the noise in place: the point of the scene moves with the center.  In
  cylindrical mode \<open>np.hstack\<close> has made a copy and the scene is left alone.
\<close>

definition noisy_center ::
  "dataset \<Rightarrow> real \<Rightarrow> nat \<times> nat \<Rightarrow> world \<Rightarrow> error + center \<times> dataset \<times> world" where
  "noisy_center ds center_noise ci w =
     (case nth_res (input_trees ds) (fst ci) of
        Inl e \<Rightarrow> Inl e
      | Inr points \<Rightarrow>
          (case nth_res points (snd ci) of
             Inl e \<Rightarrow> Inl e
           | Inr p \<Rightarrow>
               (case (if cylindric_input ds then
                        (case nth_res (input_z ds) (fst ci) of
                           Inl e \<Rightarrow> Inl e
                         | Inr zs \<Rightarrow>
                             (case nth_res zs (snd ci) of
                                Inl e \<Rightarrow> Inl e
                              | Inr z \<Rightarrow>
                                  if length z = 1 then Inr (p @ z) else Inl ValueError))
                      else Inr p) of
                  Inl e \<Rightarrow> Inl e
                | Inr center_point \<Rightarrow>
                    (case np_random_normal center_noise (length center_point) w of
                       Inl e \<Rightarrow> Inl e
                     | Inr (noise, w1) \<Rightarrow>
                         let noisy = map2 (+) center_point noise
                         in Inr (Some (fst ci, noisy),
                              (if cylindric_input ds then ds
                               else ds\<lparr>input_trees :=
                                      (input_trees ds)[fst ci := points[snd ci := noisy]]\<rparr>),
                              w1)))))"

text \<open>
  The dispatch on the policy name.  The second test is Python's \<open>'random' in name\<close>, a
  substring test.  The outer \<open>None\<close> is a call that does not return.
\<close>

definition sample_input_center ::
  "dataset \<Rightarrow> real \<Rightarrow> world \<Rightarrow> (error + center \<times> dataset \<times> world) option" where
  "sample_input_center ds center_noise w =
     (if data_sampler ds = ''regular'' then Some (sample_regular ds w)
      else if sublist ''random'' (data_sampler ds) then
        (case (if data_sampler ds = ''c-random'' then pick_c_random ds w
               else if data_sampler ds = ''A-random'' then Some (pick_A_random ds w)
               else Some (pick_random ds w)) of
           None \<Rightarrow> None
         | Some (Inl e) \<Rightarrow> Some (Inl e)
         | Some (Inr (ci, w1)) \<Rightarrow> Some (noisy_center ds center_noise ci w1))
      else Some (Inl ValueError))"

section \<open>The region extractor\<close>

text \<open>
  What the class calls but does not define: the KDTree of scikit-learn, \<open>np.argpartition\<close>,
  and the helpers of \<open>utils\<close> (augmentation, subsampling, pyramid construction) and of the
  child class (\<open>select_features\<close>).  They are parameters of the model.  The augmentations
  are random: they receive a seed drawn from the world.

  The arithmetic of the platform's doubles is a parameter too: \<open>round_double\<close> takes the
  exact result of one operation on two doubles to the double that the operation returns
  (for IEEE 754 binary64, the nearest one).  Where the source computes a count or a budget
  in doubles, every operation of the model is followed by it.
\<close>

type_synonym pyramid = "point list list \<times> int list list"

record externals =
  tree_query :: "point list \<Rightarrow> point \<Rightarrow> nat \<Rightarrow> nat list"
  tree_query_radius :: "point list \<Rightarrow> point \<Rightarrow> real \<Rightarrow> nat list"
  np_argpartition :: "real list \<Rightarrow> nat \<Rightarrow> nat list"
  augmentation_transform :: "nat \<Rightarrow> cloud \<Rightarrow> cloud"
  calib_augment :: "nat \<Rightarrow> cloud \<Rightarrow> cloud"
  select_features :: "real list list \<Rightarrow> real list list"
  subsample_cloud :: "real \<Rightarrow> cloud \<Rightarrow> cloud \<times> nat list option"
  batch_knn_neighbors :: "point list \<Rightarrow> point list \<Rightarrow> nat list"
  subsample_pack_batch :: "real \<Rightarrow> point list \<Rightarrow> point list"
  build_full_pyramid :: "point list \<Rightarrow> int list \<Rightarrow> pyramid"
  build_base_pyramid :: "point list \<Rightarrow> int list \<Rightarrow> pyramid"
  round_double :: "real \<Rightarrow> real"

text \<open>Fancy indexing \<open>xs[inds]\<close> by an array of non-negative indices.\<close>

definition rows :: "'a list \<Rightarrow> nat list \<Rightarrow> error + 'a list" where
  "rows xs inds =
     (if list_all (\<lambda>i. i < length xs) inds then Inr (map ((!) xs) inds) else Inl IndexError)"

text \<open>\<open>np.argpartition(a, kth)\<close> refuses a \<open>kth\<close> that is not below the length.\<close>

definition argpartition_res :: "externals \<Rightarrow> real list \<Rightarrow> nat \<Rightarrow> error + nat list" where
  "argpartition_res ext a kth =
     (if kth < length a then Inr (np_argpartition ext a kth) else Inl ValueError)"

text \<open>\<open>np.max(np.abs(p - q))\<close> along the coordinates of one point.\<close>

definition cube_dist :: "point \<Rightarrow> point \<Rightarrow> real" where
  "cube_dist p q = foldr max (map2 (\<lambda>a b. \<bar>a - b\<bar>) p q) 0"

text \<open>
  The branch \<open>in_radius < 0\<close>, in the order of the source.  The count \<open>k = -in_radius\<close>
  (doubled for cubes) is compared with the number of points; only when the scene holds more
  points is it passed to the tree as a number of neighbours, which must then be an integer
  (a radius with a fractional part stands for a Python float, an integral one for an int).
  With \<open>k = 1\<close> \<open>np.squeeze\<close> leaves a 0-d index, the arrays built from it are single rows
  instead of lists of rows, and \<open>__getitem__\<close> fails with \<open>IndexError\<close> on
  \<open>in_points[:, 2:]\<close>; the model raises that error at the squeeze.  The crop of the cube
  runs in both cases: \<open>np.argpartition\<close> wants an integer position below the number of
  queried points, and the slice \<open>[:-in_radius]\<close> keeps the first \<open>-in_radius\<close> entries.
\<close>

definition area_fixed_count ::
  "externals \<Rightarrow> dataset \<Rightarrow> nat \<Rightarrow> point \<Rightarrow> error + nat list \<times> point list" where
  "area_fixed_count ext ds cloud_ind q_point =
     (let k = (if use_cubes ds then - in_radius ds * 2 else - in_radius ds);
          is_int = (real_of_int \<lfloor>in_radius ds\<rfloor> = in_radius ds)
      in case nth_res (input_trees ds) cloud_ind of
           Inl e \<Rightarrow> Inl e
         | Inr points \<Rightarrow>
             (case (if k < real (length points) then
                      (if \<not> is_int then Inl TypeError
                       else if k = 1 then Inl IndexError
                       else Inr (tree_query ext points q_point (nat \<lfloor>k\<rfloor>)))
                    else Inr [0..<length points]) of
                Inl e \<Rightarrow> Inl e
              | Inr input_inds \<Rightarrow>
                  (case rows points input_inds of
                     Inl e \<Rightarrow> Inl e
                   | Inr input_points \<Rightarrow>
                       if use_cubes ds then
                         (if \<not> is_int then Inl TypeError
                          else
                            let m = nat \<lfloor>- in_radius ds\<rfloor>
                            in case argpartition_res ext
                                      (map (\<lambda>p. cube_dist p q_point) input_points) m of
                                 Inl e \<Rightarrow> Inl e
                               | Inr part \<Rightarrow>
                                   let pick_indices = take m part
                                   in case rows input_points pick_indices of
                                        Inl e \<Rightarrow> Inl e
                                      | Inr picked_points \<Rightarrow>
                                          (case rows input_inds pick_indices of
                                             Inl e \<Rightarrow> Inl e
                                           | Inr picked_inds \<Rightarrow>
                                               Inr (picked_inds, picked_points)))
                       else Inr (input_inds, input_points))))"

text \<open>The cube mask of the branch \<open>in_radius \<ge> 0\<close>, on one point.\<close>

definition in_cube :: "real \<Rightarrow> point \<Rightarrow> point \<Rightarrow> bool" where
  "in_cube r q p \<longleftrightarrow>
     list_all2 (\<lambda>a b. b - r < a) p q \<and> list_all2 (\<lambda>a b. a < b + r) p q"

definition query_radius_of :: "dataset \<Rightarrow> real" where
  "query_radius_of ds =
     (if use_cubes ds then
        (if cylindric_input ds then in_radius ds * sqrt (real (dim ds) - 1)
         else in_radius ds * sqrt (real (dim ds)))
      else in_radius ds)"

definition area_fixed_radius ::
  "externals \<Rightarrow> dataset \<Rightarrow> nat \<Rightarrow> point \<Rightarrow> error + nat list \<times> point list" where
  "area_fixed_radius ext ds cloud_ind q_point =
     (case nth_res (input_trees ds) cloud_ind of
        Inl e \<Rightarrow> Inl e
      | Inr points \<Rightarrow>
          let input_inds = tree_query_radius ext points q_point (query_radius_of ds)
          in case rows points input_inds of
               Inl e \<Rightarrow> Inl e
             | Inr input_points \<Rightarrow>
                 if use_cubes ds then
                   (let kept = filter (\<lambda>(p, i). in_cube (in_radius ds) q_point p)
                                 (zip input_points input_inds)
                    in Inr (map snd kept, map fst kept))
                 else Inr (input_inds, input_points))"

text \<open>\<open>get_input_area\<close> up to \<open>if only_inds: return input_inds\<close>.\<close>

definition get_input_inds ::
  "externals \<Rightarrow> dataset \<Rightarrow> nat \<Rightarrow> point \<Rightarrow> error + nat list \<times> point list" where
  "get_input_inds ext ds cloud_ind center_point =
     (let q_point = (if cylindric_input ds then take 2 center_point else center_point)
      in if in_radius ds < 0 then area_fixed_count ext ds cloud_ind q_point
         else area_fixed_radius ext ds cloud_ind q_point)"

definition get_input_area ::
  "externals \<Rightarrow> dataset \<Rightarrow> nat \<Rightarrow> point
     \<Rightarrow> error + nat list \<times> point list \<times> real list list \<times> int list" where
  "get_input_area ext ds cloud_ind center_point =
     (case get_input_inds ext ds cloud_ind center_point of
        Inl e \<Rightarrow> Inl e
      | Inr (input_inds, input_points0) \<Rightarrow>
          (case (if cylindric_input ds then
                   (case nth_res (input_z ds) cloud_ind of
                      Inl e \<Rightarrow> Inl e
                    | Inr zs \<Rightarrow>
                        (case rows zs input_inds of
                           Inl e \<Rightarrow> Inl e
                         | Inr z \<Rightarrow> Inr (map2 (@) input_points0 z)))
                 else Inr input_points0) of
             Inl e \<Rightarrow> Inl e
           | Inr input_points \<Rightarrow>
               (case nth_res (input_features ds) cloud_ind of
                  Inl e \<Rightarrow> Inl e
                | Inr feats \<Rightarrow>
                    (case rows feats input_inds of
                       Inl e \<Rightarrow> Inl e
                     | Inr input_feats \<Rightarrow>
                         if chosen_set ds = ''test'' \<or> chosen_set ds = ''ERF'' then
                           Inr (input_inds, input_points, input_feats,
                                replicate (length input_points) 0)
                         else
                           (case nth_res (input_labels ds) cloud_ind of
                              Inl e \<Rightarrow> Inl e
                            | Inr labels \<Rightarrow>
                                (case rows labels input_inds of
                                   Inl e \<Rightarrow> Inl e
                                 | Inr input_labs \<Rightarrow>
                                     Inr (input_inds, input_points, input_feats,
                                          input_labs)))))))"

section \<open>The batch assembler: \<open>__getitem__\<close>\<close>

text \<open>Python's \<open>int(x)\<close> on a float: truncation towards zero.\<close>

definition py_int :: "real \<Rightarrow> int" where
  "py_int x = (if 0 \<le> x then \<lfloor>x\<rfloor> else \<lceil>x\<rceil>)"

text \<open>The concatenation lists and the running point counter.\<close>

record batch_lists =
  p_list :: "point list list"
  f_list :: "real list list list"
  l_list :: "int list list"
  i_list :: "point list"
  pi_list :: "nat list list"
  pinv_list :: "nat list list"
  ci_list :: "nat list"
  batch_n_pts :: int

definition empty_lists :: batch_lists where
  "empty_lists = \<lparr>p_list = [], f_list = [], l_list = [], i_list = [], pi_list = [],
     pinv_list = [], ci_list = [], batch_n_pts = 0\<rparr>"

text \<open>
  From the extracted region to the arrays that are stacked: height feature, augmentation,
  feature selection, optional subsampling with its inverse indices.
\<close>

definition prepare_region ::
  "externals \<Rightarrow> dataset \<Rightarrow> point list \<times> real list list \<times> int list \<Rightarrow> world
     \<Rightarrow> (cloud \<times> nat list) \<times> world" where
  "prepare_region ext ds area w =
     (case area of (in_points, in_features, in_labels) \<Rightarrow>
        (case augmentation_transform ext (choice_at w (tick w))
                (in_points, map2 (\<lambda>f p. f @ drop 2 p) in_features in_points, in_labels) of
           (in_points2, in_features2, in_labels2) \<Rightarrow>
             let feats = select_features ext in_features2;
                 in_dl = in_sub_size ds;
                 w1 = w\<lparr>tick := Suc (tick w)\<rparr>
             in if 0 < in_dl \<and> init_sub_size ds * (101 / 100) < in_dl then
                  (case subsample_cloud ext in_dl (in_points2, feats, in_labels2) of
                     (sub, inv_opt) \<Rightarrow>
                       ((sub, (case inv_opt of
                                 None \<Rightarrow> batch_knn_neighbors ext in_points2 (fst sub)
                               | Some inv_inds \<Rightarrow> inv_inds)), w1))
                else (((in_points2, feats, in_labels2), [0..<length in_points2]), w1)))"

text \<open>Stacking one region and updating the counter, with the fake count of fixed-count mode.\<close>

definition stack_region ::
  "dataset \<Rightarrow> batch_lists \<Rightarrow> nat \<Rightarrow> point \<Rightarrow> nat list \<Rightarrow> cloud \<times> nat list \<Rightarrow> batch_lists" where
  "stack_region ds acc cloud_ind c_point in_inds reg =
     (case reg of ((in_points, in_features, in_labels), inv_inds) \<Rightarrow>
        let n = batch_n_pts acc + int (length in_points);
            n' = (if in_radius ds < 0 then n + (\<lfloor>- in_radius ds\<rfloor> - int (length in_points))
                  else n)
        in \<lparr>p_list = p_list acc @ [in_points],
            f_list = f_list acc @ [in_features],
            l_list = l_list acc @ [in_labels],
            i_list = i_list acc @ [c_point],
            pi_list = pi_list acc @ [in_inds],
            pinv_list = pinv_list acc @ [inv_inds],
            ci_list = ci_list acc @ [cloud_ind],
            batch_n_pts = n'\<rparr>)"

text \<open>
  One turn of the \<open>while True\<close> loop.  The flag says whether the loop is left (either
  \<open>break\<close>); otherwise the turn ended on \<open>continue\<close> or ran to the end of the body.
\<close>

definition getitem_step ::
  "externals \<Rightarrow> dataset \<Rightarrow> batch_lists \<Rightarrow> world
     \<Rightarrow> (error + bool \<times> batch_lists \<times> dataset \<times> world) option" where
  "getitem_step ext ds acc w =
     (case sample_input_center ds (5 / 100) w of
        None \<Rightarrow> None
      | Some (Inl e) \<Rightarrow> Some (Inl e)
      | Some (Inr (None, ds1, w1)) \<Rightarrow> Some (Inr (True, acc, ds1, w1))
      | Some (Inr (Some (cloud_ind, c_point), ds1, w1)) \<Rightarrow>
          (case get_input_area ext ds1 cloud_ind c_point of
             Inl e \<Rightarrow> Some (Inl e)
           | Inr (in_inds, in_points, in_features, in_labels) \<Rightarrow>
               if length in_points < 1 then Some (Inr (False, acc, ds1, w1))
               else
                 (case prepare_region ext ds1 (in_points, in_features, in_labels) w1 of
                    (reg, w2) \<Rightarrow>
                      let acc' = stack_region ds1 acc cloud_ind c_point in_inds reg
                      in Some (Inr (py_int (b_lim ds1) < batch_n_pts acc', acc', ds1, w2)))))"

partial_function (option) getitem_loop ::
  "externals \<Rightarrow> dataset \<Rightarrow> batch_lists \<Rightarrow> world
     \<Rightarrow> (error + batch_lists \<times> dataset \<times> world) option" where
  "getitem_loop ext ds acc w =
     (case getitem_step ext ds acc w of
        None \<Rightarrow> None
      | Some (Inl e) \<Rightarrow> Some (Inl e)
      | Some (Inr (stop, acc', ds', w')) \<Rightarrow>
          if stop then Some (Inr (acc', ds', w')) else getitem_loop ext ds' acc' w')"

subsection \<open>Concatenation and the Mix3D step\<close>

record stacked =
  stacked_points :: "point list"
  stacked_features :: "real list list"
  stacked_labels :: "int list"
  center_points :: "point list"
  cloud_inds :: "nat list"
  input_inds :: "nat list"
  input_invs :: "nat list"
  stack_lengths :: "int list"
  stack_lengths0 :: "int list"

definition concatenate_batch :: "batch_lists \<Rightarrow> stacked" where
  "concatenate_batch acc =
     \<lparr>stacked_points = concat (p_list acc),
      stacked_features = concat (f_list acc),
      stacked_labels = concat (l_list acc),
      center_points = i_list acc,
      cloud_inds = ci_list acc,
      input_inds = concat (pi_list acc),
      input_invs = concat (pinv_list acc),
      stack_lengths = map (\<lambda>pp. int (length pp)) (p_list acc),
      stack_lengths0 = map (\<lambda>pp. int (length pp)) (pi_list acc)\<rparr>"

text \<open>Python slices \<open>xs[:e]\<close> and \<open>xs[s:]\<close> for a signed bound.\<close>

definition slice_upto :: "'a list \<Rightarrow> int \<Rightarrow> 'a list" where
  "slice_upto xs e =
     (if 0 \<le> e then take (nat e) xs else take (nat (int (length xs) + e)) xs)"

definition slice_from :: "'a list \<Rightarrow> int \<Rightarrow> 'a list" where
  "slice_from xs s =
     (if 0 \<le> s then drop (nat s) xs else drop (nat (int (length xs) + s)) xs)"

text \<open>\<open>torch.sum(torch.reshape(x, (-1, 2)), axis=1)\<close>; the reshape needs an even length.\<close>

fun pair_sums :: "int list \<Rightarrow> error + int list" where
  "pair_sums [] = Inr []"
| "pair_sums [x] = Inl RuntimeError"
| "pair_sums (x # y # xs) =
     (case pair_sums xs of Inl e \<Rightarrow> Inl e | Inr ys \<Rightarrow> Inr ((x + y) # ys))"

text \<open>
  The count of regions left alone: \<open>max(0, int(np.ceil(B * (1 - mix3D))))\<close>, then the
  adjustment of the parity.  \<open>1 - mix3D\<close> and the product with the integer \<open>B\<close> are operations
  on doubles, each rounded by \<open>fl\<close>; the ceiling and the conversion are exact.
\<close>

definition untouched_count :: "(real \<Rightarrow> real) \<Rightarrow> real \<Rightarrow> nat \<Rightarrow> int" where
  "untouched_count fl m B =
     (let untouched = max 0 \<lceil>fl (fl (real B) * fl (1 - m))\<rceil>
      in if (int B - untouched) mod 2 = 1 then untouched + 1 else untouched)"

definition mix3D_lengths :: "int \<Rightarrow> int list \<Rightarrow> error + int list" where
  "mix3D_lengths untouched lens =
     (case pair_sums (slice_upto lens (- untouched)) of
        Inl e \<Rightarrow> Inl e
      | Inr combined_lengths \<Rightarrow> Inr (combined_lengths @ slice_from lens (- untouched)))"

definition mix3D_augment :: "externals \<Rightarrow> dataset \<Rightarrow> nat \<Rightarrow> stacked \<Rightarrow> error + stacked" where
  "mix3D_augment ext ds B st =
     (if chosen_set ds = ''training'' \<and> 0 < mix3D ds then
        (let untouched = untouched_count (round_double ext) (mix3D ds) B
         in case mix3D_lengths untouched (stack_lengths st) of
              Inl e \<Rightarrow> Inl e
            | Inr lens \<Rightarrow>
                (case mix3D_lengths untouched (stack_lengths0 st) of
                   Inl e \<Rightarrow> Inl e
                 | Inr lens0 \<Rightarrow> Inr (st\<lparr>stack_lengths := lens, stack_lengths0 := lens0\<rparr>)))
      else Inr st)"

text \<open>
  The returned dictionary: either the one whose \<open>points\<close> list is empty, or the pyramid
  with features, labels, lengths0, cloud_inds, center_points, input_inds, input_invs.
\<close>

datatype input_dict =
  Empty_points
| Pyramid_dict pyramid "real list list" "int list" "int list" "nat list" "point list"
    "nat list" "nat list"

definition getitem ::
  "externals \<Rightarrow> bool \<Rightarrow> dataset \<Rightarrow> world \<Rightarrow> (error + input_dict \<times> dataset \<times> world) option" where
  "getitem ext precompute_pyramid ds w =
     (case getitem_loop ext ds empty_lists w of
        None \<Rightarrow> None
      | Some (Inl e) \<Rightarrow> Some (Inl e)
      | Some (Inr (acc, ds1, w1)) \<Rightarrow>
          if length (p_list acc) < 1 then
            Some (Inr (Empty_points, ds1, w1\<lparr>slept := slept w1 + 1 / 10\<rparr>))
          else
            (case mix3D_augment ext ds1 (length (p_list acc)) (concatenate_batch acc) of
               Inl e \<Rightarrow> Some (Inl e)
             | Inr st \<Rightarrow>
                 Some (Inr (Pyramid_dict
                     ((if precompute_pyramid then build_full_pyramid ext
                       else build_base_pyramid ext) (stacked_points st) (stack_lengths st))
                     (stacked_features st) (stacked_labels st) (stack_lengths0 st)
                     (cloud_inds st) (center_points st) (input_inds st) (input_invs st),
                   ds1, w1))))"

section \<open>The calibrator: \<open>calib_batch_limit\<close>\<close>










section \<open>Callers and concrete data used in the examples\<close>

text \<open>A caller that draws \<open>n\<close> centers in a row.\<close>

fun sample_n ::
  "nat \<Rightarrow> dataset \<Rightarrow> real \<Rightarrow> world \<Rightarrow> (error + center list \<times> dataset \<times> world) option" where
  "sample_n 0 ds cn w = Some (Inr ([], ds, w))"
| "sample_n (Suc n) ds cn w =
     (case sample_input_center ds cn w of
        None \<Rightarrow> None
      | Some (Inl e) \<Rightarrow> Some (Inl e)
      | Some (Inr (c, ds1, w1)) \<Rightarrow>
          (case sample_n n ds1 cn w1 of
             None \<Rightarrow> None
           | Some (Inl e) \<Rightarrow> Some (Inl e)
           | Some (Inr (cs, ds2, w2)) \<Rightarrow> Some (Inr (c # cs, ds2, w2))))"

text \<open>One scene of three points, swept regularly in the test role.\<close>

definition demo_ds :: dataset where
  "demo_ds = \<lparr>data_sampler = ''regular'', chosen_set = ''test'', in_radius = 2, b_lim = 10,
     use_cubes = False, cylindric_input = False, dim = 3, num_classes = 2,
     label_values = [0, 1], ignored_labels = [], mix3D = 0, in_sub_size = 0,
     init_sub_size = 0,
     input_trees = [[[0, 0, 0], [1, 0, 0], [5, 5, 5]]],
     input_features = [[[1], [1], [1]]],
     input_labels = [[0, 1, 1]],
     input_z = [],
     all_inds = [(0, 0), (0, 1), (0, 2)],
     label_indices = [[(0, 0)], [(0, 1), (0, 2)]],
     reg_sampling_i = 0, reg_votes = 0,
     reg_sample = Some [(0, [0, 0, 0]), (0, [5, 5, 5])]\<rparr>"

definition demo_world :: world where
  "demo_world = \<lparr>tick = 0, choice_at = (\<lambda>n. n), normal_at = (\<lambda>n j. 0),
     queue_at = (\<lambda>n. [(0, [5, 5, 5]), (0, [0, 0, 0])]), slept = 0\<rparr>"

text \<open>
  Two scenes whose label values are not their own positions in \<open>label_values\<close>; the first
  scene carries the ignored label only.  The second record is the first after
  \<open>prepare_label_inds\<close>.
\<close>

definition offset_labels_ds0 :: dataset where
  "offset_labels_ds0 = \<lparr>data_sampler = ''c-random'', chosen_set = ''training'', in_radius = 2,
     b_lim = 10, use_cubes = False, cylindric_input = False, dim = 3, num_classes = 3,
     label_values = [10, 20, 30], ignored_labels = [10], mix3D = 0, in_sub_size = 0,
     init_sub_size = 0,
     input_trees = [[[0, 0, 0], [1, 0, 0]], [[5, 5, 5], [6, 5, 5]]],
     input_features = [[[1], [1]], [[1], [1]]],
     input_labels = [[10, 10], [20, 30]],
     input_z = [],
     all_inds = [],
     label_indices = [],
     reg_sampling_i = 0, reg_votes = 0,
     reg_sample = None\<rparr>"

definition offset_labels_ds :: dataset where
  "offset_labels_ds = offset_labels_ds0\<lparr>
     all_inds := [(0, 0), (0, 1), (1, 0), (1, 1)],
     label_indices := [[(0, 0), (0, 1)], [(1, 0)], [(1, 1)]]\<rparr>"

text \<open>
  What the Mix3D step leaves in a length vector, written by position: with \<open>u > 0\<close>
  regions untouched, entry \<open>j\<close> of the merged part is the sum of the old entries \<open>2j\<close> and
  \<open>2j + 1\<close> and the last \<open>u\<close> entries are kept; with \<open>u = 0\<close> the vector is unchanged.
\<close>

definition merged_lengths :: "int \<Rightarrow> int list \<Rightarrow> int list" where
  "merged_lengths u lens =
     (if u = 0 then lens
      else map (\<lambda>j. lens ! (2 * j) + lens ! (2 * j + 1)) [0..<(length lens - nat u) div 2]
           @ drop (length lens - nat u) lens)"

definition demo_stacked_odd :: stacked where
  "demo_stacked_odd = \<lparr>stacked_points = [], stacked_features = [], stacked_labels = [],
     center_points = [], cloud_inds = [0, 0, 0], input_inds = [], input_invs = [],
     stack_lengths = [3, 5, 2], stack_lengths0 = [4, 6, 3]\<rparr>"

definition demo_stacked :: stacked where
  "demo_stacked = \<lparr>stacked_points = [], stacked_features = [], stacked_labels = [],
     center_points = [], cloud_inds = [0, 0, 0, 0], input_inds = [], input_invs = [],
     stack_lengths = [3, 5, 2, 7], stack_lengths0 = [4, 6, 3, 8]\<rparr>"

text \<open>
  Two datasets that differ at most in what the sampler writes: the state of the regular
  sampler (cursor, votes, queue) and the coordinates stored in the trees.
\<close>

definition same_config :: "dataset \<Rightarrow> dataset \<Rightarrow> bool" where
  "same_config ds ds' \<longleftrightarrow>
     ds'\<lparr>input_trees := input_trees ds, reg_sampling_i := reg_sampling_i ds,
         reg_votes := reg_votes ds, reg_sample := reg_sample ds\<rparr> = ds"

text \<open>
  What one turn, and any number of turns, of the accumulation loop preserves: the
  configuration, the time slept, the regions already stacked, and in fixed-count mode the
  counter as a multiple of the regions stacked.  And what holds when the loop is left.
\<close>

definition step_ok ::
  "dataset \<Rightarrow> batch_lists \<Rightarrow> world \<Rightarrow> batch_lists \<Rightarrow> dataset \<Rightarrow> world \<Rightarrow> bool" where
  "step_ok ds acc w acc' ds' w' \<longleftrightarrow>
     same_config ds ds' \<and> slept w' = slept w
     \<and> length (p_list acc) \<le> length (p_list acc')
     \<and> (in_radius ds < 0 \<longrightarrow>
          batch_n_pts acc' - batch_n_pts acc
            = \<lfloor>- in_radius ds\<rfloor> * (int (length (p_list acc')) - int (length (p_list acc))))"

definition exit_ok :: "dataset \<Rightarrow> batch_lists \<Rightarrow> dataset \<Rightarrow> world \<Rightarrow> bool" where
  "exit_ok ds acc' ds' w' \<longleftrightarrow>
     (py_int (b_lim ds) < batch_n_pts acc' \<and> p_list acc' \<noteq> [])
     \<or> (sample_input_center ds' (5 / 100) w' = Some (Inr (None, ds', w'))
        \<and> data_sampler ds = ''regular'' \<and> chosen_set ds \<noteq> ''validation'')"

text \<open>
  The sampler drains from a state: every center it returns has an empty region, until it
  returns the sentinel.  The last two arguments are the state in which the sentinel is
  returned.
\<close>

inductive drains :: "externals \<Rightarrow> dataset \<Rightarrow> world \<Rightarrow> dataset \<Rightarrow> world \<Rightarrow> bool" where
  drains_end:
    "sample_input_center ds (5 / 100) w = Some (Inr (None, ds, w)) \<Longrightarrow> drains ext ds w ds w"
| drains_skip:
    "sample_input_center ds (5 / 100) w = Some (Inr (Some (c, p), d, v))
       \<Longrightarrow> get_input_area ext d c p = Inr (inds, [], fs, ls)
       \<Longrightarrow> drains ext d v ds' w'
       \<Longrightarrow> drains ext ds w ds' w'"

text \<open>
  Concrete collaborators for the examples: exact nearest-neighbour and ball queries on the
  squared Euclidean distance, a partition obtained by sorting, identity augmentation,
  feature selection and subsampling.  The numbers of the examples are small dyadic
  fractions and integers on which every operation is exact in doubles, so the rounding
  is the identity.
\<close>

definition sq_dist :: "point \<Rightarrow> point \<Rightarrow> real" where
  "sq_dist p q = sum_list (map2 (\<lambda>a b. (a - b) * (a - b)) p q)"

definition demo_ext :: externals where
  "demo_ext = \<lparr>
     tree_query = (\<lambda>pts q k. take k (sort_key (\<lambda>i. sq_dist (pts ! i) q) [0..<length pts])),
     tree_query_radius = (\<lambda>pts q r. filter (\<lambda>i. sq_dist (pts ! i) q \<le> r * r) [0..<length pts]),
     np_argpartition = (\<lambda>a kth. sort_key (\<lambda>i. a ! i) [0..<length a]),
     augmentation_transform = (\<lambda>seed c. c),
     calib_augment = (\<lambda>seed c. c),
     select_features = (\<lambda>f. f),
     subsample_cloud = (\<lambda>dl c. (c, None)),
     batch_knn_neighbors = (\<lambda>pts sub. []),
     subsample_pack_batch = (\<lambda>dl pts. pts),
     build_full_pyramid = (\<lambda>pts lens. ([pts], [lens])),
     build_base_pyramid = (\<lambda>pts lens. ([pts], [lens])),
     round_double = (\<lambda>x. x)\<rparr>"

text \<open>The lists after the two regions of \<open>demo_ds\<close>, and a fixed-count variant of the scene.\<close>

definition demo_acc :: batch_lists where
  "demo_acc = \<lparr>p_list = [[[0, 0, 0], [1, 0, 0]], [[5, 5, 5]]],
     f_list = [[[1, 0], [1, 0]], [[1, 5]]],
     l_list = [[0, 0], [0]],
     i_list = [[0, 0, 0], [5, 5, 5]],
     pi_list = [[0, 1], [2]],
     pinv_list = [[0, 1], [0]],
     ci_list = [0, 0],
     batch_n_pts = 3\<rparr>"

definition demo_fixed_ds :: dataset where
  "demo_fixed_ds = demo_ds\<lparr>data_sampler := ''random'', in_radius := - 2, b_lim := 3\<rparr>"

definition demo_fixed_acc :: batch_lists where
  "demo_fixed_acc = \<lparr>p_list = [[[0, 0, 0], [1, 0, 0]], [[0, 0, 0], [1, 0, 0]]],
     f_list = [[[1, 0], [1, 0]], [[1, 0], [1, 0]]],
     l_list = [[0, 0], [0, 0]],
     i_list = [[0, 0, 0], [0, 0, 0]],
     pi_list = [[0, 1], [0, 1]],
     pinv_list = [[0, 1], [0, 1]],
     ci_list = [0, 0],
     batch_n_pts = 4\<rparr>"




text \<open>A scene of ten points along the first axis, queried in fixed-count mode with 256.\<close>

definition ten_points :: "point list" where
  "ten_points = [[0, 0, 0], [1, 0, 0], [2, 0, 0], [3, 0, 0], [4, 0, 0], [5, 0, 0],
     [6, 0, 0], [7, 0, 0], [8, 0, 0], [9, 0, 0]]"

definition demo_ten_ds :: dataset where
  "demo_ten_ds = demo_ds\<lparr>data_sampler := ''random'', in_radius := - 256,
     input_trees := [ten_points],
     input_features := [[[1], [1], [1], [1], [1], [1], [1], [1], [1], [1]]],
     input_labels := [[0, 1, 1, 0, 1, 1, 0, 1, 1, 0]],
     all_inds := [(0, 0), (0, 1), (0, 2), (0, 3), (0, 4), (0, 5), (0, 6), (0, 7), (0, 8),
       (0, 9)]\<rparr>"

text \<open>The scene with a queue whose only center is far from every point.\<close>

definition demo_far_ds :: dataset where
  "demo_far_ds = demo_ds\<lparr>reg_sample := Some [(0, [50, 50, 50])]\<rparr>"



section \<open>Properties of the center sampler\<close>

subsection \<open>The regular sweep\<close>

lemma sint_of_nat_small: "k < 2 ^ 63 \<Longrightarrow> sint (of_nat k :: 64 word) = int k"
proof -
  assume a: "k < 2 ^ 63"
  have "sint (of_nat k :: 64 word) = sint (word_of_int (int k) :: 64 word)" by simp
  also have "\<dots> = signed_take_bit 63 (int k)" by (simp only: Word.sint_sbintrunc') simp
  also have "\<dots> = int k" using a by (intro signed_take_bit_int_eq_self) auto
  finally show ?thesis .
qed

lemma regular_step:
  assumes "data_sampler ds = ''regular''" "reg_sample ds = Some q"
    and "k < length q" "length q < 2 ^ 63"
  shows "sample_input_center (ds\<lparr>reg_sampling_i := of_nat k\<rparr>) cn w
     = Some (Inr (Some (q ! k), ds\<lparr>reg_sampling_i := of_nat k + 1\<rparr>, w))"
proof -
  have k: "sint (of_nat k :: 64 word) = int k"
    using assms by (intro sint_of_nat_small) simp
  show ?thesis
    using assms
    by (simp add: sample_input_center_def sample_regular_def next_regular_def py_index_def k)
qed

lemma regular_run:
  assumes "data_sampler ds = ''regular''" "reg_sample ds = Some q" "length q < 2 ^ 63"
  shows "k + n = length q \<Longrightarrow>
     sample_n n (ds\<lparr>reg_sampling_i := of_nat k\<rparr>) cn w
       = Some (Inr (map Some (drop k q), ds\<lparr>reg_sampling_i := of_nat (length q)\<rparr>, w))"
proof (induction n arbitrary: k)
  case 0
  then show ?case by simp
next
  case (Suc n)
  have k: "k < length q" using Suc.prems by simp
  have step: "sample_input_center (ds\<lparr>reg_sampling_i := of_nat k\<rparr>) cn w
     = Some (Inr (Some (q ! k), ds\<lparr>reg_sampling_i := of_nat (Suc k)\<rparr>, w))"
    using regular_step [OF assms(1,2) k assms(3), of cn w] by simp
  have "sample_n n (ds\<lparr>reg_sampling_i := of_nat (Suc k)\<rparr>) cn w
       = Some (Inr (map Some (drop (Suc k) q), ds\<lparr>reg_sampling_i := of_nat (length q)\<rparr>, w))"
    using Suc.IH [of "Suc k"] Suc.prems by simp
  then show ?case
    using step k by (simp add: Cons_nth_drop_Suc [symmetric])
qed

lemma regular_exhausted:
  assumes "data_sampler ds = ''regular''" "reg_sample ds = Some q" "length q < 2 ^ 63"
    and "chosen_set ds \<noteq> ''validation''"
  shows "sample_input_center (ds\<lparr>reg_sampling_i := of_nat (length q)\<rparr>) cn w
     = Some (Inr (None, ds\<lparr>reg_sampling_i := of_nat (length q)\<rparr>, w))"
  using assms
  by (simp add: sample_input_center_def sample_regular_def sint_of_nat_small)

lemma regular_regenerate:
  assumes "data_sampler ds = ''regular''" "reg_sample ds = Some q" "length q < 2 ^ 63"
    and "chosen_set ds = ''validation''" "0 \<le> in_radius ds" "input_trees ds \<noteq> []"
    and "queue_at w (tick w) \<noteq> []"
  shows "sample_input_center (ds\<lparr>reg_sampling_i := of_nat (length q)\<rparr>) cn w
     = Some (Inr (Some (hd (queue_at w (tick w))),
          ds\<lparr>reg_sample := Some (queue_at w (tick w)), reg_sampling_i := 1,
             reg_votes := reg_votes ds + 1\<rparr>,
          w\<lparr>tick := Suc (tick w)\<rparr>))"
  using assms
  by (simp add: sample_input_center_def sample_regular_def sint_of_nat_small
      new_reg_sampling_pts_def next_regular_def py_index_def hd_conv_nth)


text \<open>
  Claim C1.  Under the regular policy, with a queue \<open>q\<close> of length \<open>Q\<close> and the cursor at
  0: a call made with the cursor at \<open>k < Q\<close> returns the pair stored at \<open>k\<close> and adds
  exactly one to the cursor, leaving queue, votes and world alone; hence \<open>Q\<close> calls in a row
  return the \<open>Q\<close> pairs of the queue in order, none of them the sentinel.  The next call, made
  with the cursor at \<open>Q\<close>, returns the sentinel and changes nothing in every role but
  validation (the test role among them); in the validation role it installs the regenerated
  queue, adds one to the vote counter, returns the first pair of the new queue and leaves the
  cursor at 1.  The regeneration needs what \<open>new_reg_sampling_pts\<close> needs: a radius that is
  not negative, at least one scene, and a new queue that is not empty.
\<close>

theorem regular_sampling_sweep:
  assumes "data_sampler ds = ''regular''" and "reg_sample ds = Some q"
    and "reg_sampling_i ds = 0" and "length q < 2 ^ 63"
  shows "(\<forall>k<length q.
            sample_input_center (ds\<lparr>reg_sampling_i := of_nat k\<rparr>) cn w
              = Some (Inr (Some (q ! k), ds\<lparr>reg_sampling_i := of_nat k + 1\<rparr>, w))
            \<and> sint (of_nat k + 1 :: 64 word) = sint (of_nat k :: 64 word) + 1)
       \<and> sample_n (length q) ds cn w
            = Some (Inr (map Some q, ds\<lparr>reg_sampling_i := of_nat (length q)\<rparr>, w))
       \<and> (chosen_set ds \<noteq> ''validation'' \<longrightarrow>
            sample_input_center (ds\<lparr>reg_sampling_i := of_nat (length q)\<rparr>) cn w
              = Some (Inr (None, ds\<lparr>reg_sampling_i := of_nat (length q)\<rparr>, w)))
       \<and> (chosen_set ds = ''validation'' \<and> 0 \<le> in_radius ds \<and> input_trees ds \<noteq> []
            \<and> queue_at w (tick w) \<noteq> [] \<longrightarrow>
            sample_input_center (ds\<lparr>reg_sampling_i := of_nat (length q)\<rparr>) cn w
              = Some (Inr (Some (hd (queue_at w (tick w))),
                   ds\<lparr>reg_sample := Some (queue_at w (tick w)), reg_sampling_i := 1,
                      reg_votes := reg_votes ds + 1\<rparr>,
                   w\<lparr>tick := Suc (tick w)\<rparr>)))"
proof (intro conjI allI impI)
  fix k assume k: "k < length q"
  show "sample_input_center (ds\<lparr>reg_sampling_i := of_nat k\<rparr>) cn w
      = Some (Inr (Some (q ! k), ds\<lparr>reg_sampling_i := of_nat k + 1\<rparr>, w))"
    by (rule regular_step [OF assms(1,2) k assms(4)])
  have "sint (of_nat (Suc k) :: 64 word) = int (Suc k)"
    using k assms(4) by (intro sint_of_nat_small) simp
  moreover have "sint (of_nat k :: 64 word) = int k"
    using k assms(4) by (intro sint_of_nat_small) simp
  ultimately show "sint (of_nat k + 1 :: 64 word) = sint (of_nat k :: 64 word) + 1"
    by (simp add: add.commute)
next
  have "ds\<lparr>reg_sampling_i := of_nat 0\<rparr> = ds" using assms(3) by simp
  then show "sample_n (length q) ds cn w
      = Some (Inr (map Some q, ds\<lparr>reg_sampling_i := of_nat (length q)\<rparr>, w))"
    using regular_run [OF assms(1,2,4), of 0 "length q" cn w] by simp
next
  assume "chosen_set ds \<noteq> ''validation''"
  then show "sample_input_center (ds\<lparr>reg_sampling_i := of_nat (length q)\<rparr>) cn w
      = Some (Inr (None, ds\<lparr>reg_sampling_i := of_nat (length q)\<rparr>, w))"
    by (rule regular_exhausted [OF assms(1,2,4)])
next
  assume "chosen_set ds = ''validation'' \<and> 0 \<le> in_radius ds \<and> input_trees ds \<noteq> []
            \<and> queue_at w (tick w) \<noteq> []"
  then show "sample_input_center (ds\<lparr>reg_sampling_i := of_nat (length q)\<rparr>) cn w
      = Some (Inr (Some (hd (queue_at w (tick w))),
           ds\<lparr>reg_sample := Some (queue_at w (tick w)), reg_sampling_i := 1,
              reg_votes := reg_votes ds + 1\<rparr>,
           w\<lparr>tick := Suc (tick w)\<rparr>))"
    using regular_regenerate [OF assms(1,2,4)] by blast
qed

theorem regular_sampling_sweep_witness:
  "sample_n 2 demo_ds (5 / 100) demo_world
     = Some (Inr ([Some (0, [0, 0, 0]), Some (0, [5, 5, 5])],
                  demo_ds\<lparr>reg_sampling_i := 2\<rparr>, demo_world))
   \<and> sample_input_center (demo_ds\<lparr>reg_sampling_i := 2\<rparr>) (5 / 100) demo_world
     = Some (Inr (None, demo_ds\<lparr>reg_sampling_i := 2\<rparr>, demo_world))
   \<and> sample_input_center (demo_ds\<lparr>chosen_set := ''validation'', reg_sampling_i := 2\<rparr>)
        (5 / 100) demo_world
     = Some (Inr (Some (0, [5, 5, 5]),
          demo_ds\<lparr>chosen_set := ''validation'',
            reg_sample := Some [(0, [5, 5, 5]), (0, [0, 0, 0])],
            reg_sampling_i := 1, reg_votes := 1\<rparr>,
          demo_world\<lparr>tick := 1\<rparr>))"
proof -
  let ?q = "[(0, [0, 0, 0]), (0, [5, 5, 5])] :: (nat \<times> point) list"
  let ?val = "demo_ds\<lparr>chosen_set := ''validation''\<rparr>"
  have t: "data_sampler demo_ds = ''regular''" "reg_sample demo_ds = Some ?q"
    "reg_sampling_i demo_ds = 0" "length ?q < 2 ^ 63" "chosen_set demo_ds \<noteq> ''validation''"
    by (simp_all add: demo_ds_def)
  have v: "data_sampler ?val = ''regular''" "reg_sample ?val = Some ?q"
    "reg_sampling_i ?val = 0"
    "chosen_set ?val = ''validation'' \<and> 0 \<le> in_radius ?val \<and> input_trees ?val \<noteq> []
       \<and> queue_at demo_world (tick demo_world) \<noteq> []"
    by (simp_all add: demo_ds_def demo_world_def)
  have q: "queue_at demo_world 0 = [(0, [5, 5, 5]), (0, [0, 0, 0])]"
    "tick demo_world = 0" "reg_votes demo_ds = 0"
    by (simp_all add: demo_world_def demo_ds_def)
  have len: "length ?q = 2" by simp
  show ?thesis
    using regular_sampling_sweep [OF t(1-4), of "5 / 100" demo_world, unfolded len] t(5)
      regular_sampling_sweep [OF v(1-3) t(4), of "5 / 100" demo_world, unfolded len] v(4)
    by (simp add: q del: sample_n.simps)
qed

subsection \<open>The dispatch on the policy name\<close>

lemma not_random_in_c_regular: "\<not> sublist ''random'' ''c-regular''"
  by code_simp

lemma random_in_B_random: "sublist ''random'' ''B-random''"
  by code_simp

lemma random_in_c_random: "sublist ''random'' ''c-random''"
  by code_simp

text \<open>
  A name that is not \<open>regular\<close> and does not contain \<open>random\<close> makes every call fail with
  the error of the source, a \<open>ValueError\<close>, whatever the state and the random draws.
\<close>

lemma unknown_sampler_fails:
  assumes "data_sampler ds \<noteq> ''regular''" and "\<not> sublist ''random'' (data_sampler ds)"
  shows "sample_input_center ds cn w = Some (Inl ValueError)"
  using assms by (simp add: sample_input_center_def)

lemma unknown_sampler_fails_example:
  "sample_input_center (demo_ds\<lparr>data_sampler := ''c-regular''\<rparr>) (5 / 100) demo_world
     = Some (Inl ValueError)"
  by (rule unknown_sampler_fails) (simp_all add: not_random_in_c_regular)

text \<open>
  Every other name that contains \<open>random\<close>, listed in the error message or not, is served
  by the uniform policy: a point drawn among all points, then the noise.
\<close>

lemma unlisted_random_name_uniform:
  assumes "data_sampler ds \<noteq> ''regular''" and "sublist ''random'' (data_sampler ds)"
    and "data_sampler ds \<noteq> ''c-random''" and "data_sampler ds \<noteq> ''A-random''"
  shows "sample_input_center ds cn w
     = (case pick_random ds w of
          Inl e \<Rightarrow> Some (Inl e)
        | Inr (ci, w1) \<Rightarrow> Some (noisy_center ds cn ci w1))"
  using assms by (simp add: sample_input_center_def split: sum.splits)

text \<open>
  Claim C3 at a failing input.  The name \<open>B-random\<close> is none of the names that the error
  message of the source gives as admissible (\<open>regular\<close>, \<open>random\<close>, \<open>c-random\<close>) and is not
  \<open>A-random\<close> either, yet the call does not fail: the test \<open>'random' in name\<close> accepts it,
  the uniform policy serves it and a pair is returned.
\<close>

theorem unlisted_random_name_accepted:
  "data_sampler (demo_ds\<lparr>data_sampler := ''B-random''\<rparr>)
      \<notin> {''regular'', ''random'', ''c-random'', ''A-random''}
   \<and> sample_input_center (demo_ds\<lparr>data_sampler := ''B-random''\<rparr>) (5 / 100) demo_world
     = Some (Inr (Some (0, [0, 0, 0]), demo_ds\<lparr>data_sampler := ''B-random''\<rparr>,
                  demo_world\<lparr>tick := 2\<rparr>))"
  by (simp add: sample_input_center_def random_in_B_random pick_random_def np_random_choice_def
      noisy_center_def nth_res_def np_random_normal_def demo_ds_def demo_world_def Let_def)

subsection \<open>The class-balanced policy\<close>

lemma prepare_offset_labels: "prepare_label_inds offset_labels_ds0 = Inr offset_labels_ds"
  by (simp add: prepare_label_inds_def offset_labels_ds0_def offset_labels_ds_def
      inds_with_label_def)

text \<open>
  Claim C6 at a failing input.  The label values are 10, 20, 30 and 10 is ignored; scene 0
  holds points of label 10 only.  The drawn value 0 is compared with the ignored label
  values, passes, and is then used as a position in \<open>label_indices\<close>, whose entry 0 lists
  the points of label 10: the call returns a center in scene 0, chosen through the ignored
  label.
\<close>

theorem c_random_selects_ignored_scene:
  "prepare_label_inds offset_labels_ds0 = Inr offset_labels_ds
   \<and> sample_input_center offset_labels_ds (5 / 100) demo_world
     = Some (Inr (Some (0, [1, 0, 0]), offset_labels_ds, demo_world\<lparr>tick := 3\<rparr>))
   \<and> list_all (\<lambda>l. l \<in> set (ignored_labels offset_labels_ds))
        (input_labels offset_labels_ds ! 0)"
proof -
  have "redraw_label offset_labels_ds 0 (demo_world\<lparr>tick := 1\<rparr>)
      = Some (Inr (0, demo_world\<lparr>tick := 1\<rparr>))"
    by (subst redraw_label.simps) (simp add: offset_labels_ds_def offset_labels_ds0_def)
  then have "pick_c_random offset_labels_ds demo_world
      = Some (Inr ((0, 1), demo_world\<lparr>tick := 2\<rparr>))"
    by (simp add: pick_c_random_def np_random_choice_def nth_res_def demo_world_def
        offset_labels_ds_def offset_labels_ds0_def)
  then have "sample_input_center offset_labels_ds (5 / 100) demo_world
     = Some (Inr (Some (0, [1, 0, 0]), offset_labels_ds, demo_world\<lparr>tick := 3\<rparr>))"
    by (simp add: sample_input_center_def random_in_c_random noisy_center_def nth_res_def
        np_random_normal_def demo_world_def offset_labels_ds_def offset_labels_ds0_def Let_def)
  moreover have "list_all (\<lambda>l. l \<in> set (ignored_labels offset_labels_ds))
        (input_labels offset_labels_ds ! 0)"
    by (simp add: offset_labels_ds_def offset_labels_ds0_def)
  ultimately show ?thesis using prepare_offset_labels by simp
qed

section \<open>Properties of the region extractor\<close>

lemma rows_upt: "rows xs [0..<length xs] = Inr xs"
  by (simp add: rows_def list_all_iff map_nth)

text \<open>
  Fixed-count mode on a scene of at most \<open>k\<close> points.  Without cubes the query is skipped
  and all points are returned, in their order, with no crop.
\<close>

lemma fixed_count_small_scene:
  assumes "in_radius ds < 0" and "\<not> use_cubes ds"
    and "nth_res (input_trees ds) cloud_ind = Inr pts"
    and "real (length pts) \<le> - in_radius ds"
  shows "get_input_inds ext ds cloud_ind c = Inr ([0..<length pts], pts)"
  using assms by (simp add: get_input_inds_def area_fixed_count_def Let_def rows_upt)

text \<open>
  With cubes the crop runs all the same, and \<open>np.argpartition\<close> is given the position
  \<open>k\<close>, which is not below the number of points: the call fails.
\<close>

lemma fixed_count_cube_small_scene:
  assumes "in_radius ds < 0" and "real_of_int \<lfloor>in_radius ds\<rfloor> = in_radius ds"
    and "use_cubes ds" and "nth_res (input_trees ds) cloud_ind = Inr pts"
    and "real (length pts) \<le> - in_radius ds"
  shows "get_input_inds ext ds cloud_ind c = Inl ValueError"
proof -
  have "\<not> - in_radius ds * 2 < real (length pts)" using assms(1,5) by simp
  moreover have "length pts \<le> nat \<lfloor>- in_radius ds\<rfloor>" using assms(5) by (simp add: le_nat_floor)
  ultimately show ?thesis
    using assms(1-4)
    by (simp add: get_input_inds_def area_fixed_count_def Let_def rows_upt argpartition_res_def)
qed

lemma ten_features:
  "nth_res (input_features demo_ten_ds) 0 = Inr [[1], [1], [1], [1], [1], [1], [1], [1], [1], [1]]"
  by (simp add: demo_ten_ds_def nth_res_def)

text \<open>
  Claim C5 at a failing input.  A fixed-count query with \<open>k = 256\<close> on a scene of 10 points:
  without cubes \<open>get_input_area\<close> returns the 10 points, uncropped; with cubes it raises
  the \<open>ValueError\<close> of \<open>np.argpartition\<close> instead of returning them.
\<close>

theorem fixed_count_cube_fails_on_small_scene:
  "length ten_points = 10 \<and> in_radius demo_ten_ds = - 256 \<and> \<not> use_cubes demo_ten_ds
   \<and> input_trees demo_ten_ds = [ten_points]
   \<and> get_input_area demo_ext demo_ten_ds 0 [0, 0, 0]
       = Inr ([0..<10], ten_points,
              [[1], [1], [1], [1], [1], [1], [1], [1], [1], [1]],
              replicate 10 0)
   \<and> get_input_area demo_ext (demo_ten_ds\<lparr>use_cubes := True\<rparr>) 0 [0, 0, 0] = Inl ValueError"
proof -
  have l: "length ten_points = 10" by (simp add: ten_points_def)
  have t: "nth_res (input_trees demo_ten_ds) 0 = Inr ten_points"
    "nth_res (input_trees (demo_ten_ds\<lparr>use_cubes := True\<rparr>)) 0 = Inr ten_points"
    by (simp_all add: demo_ten_ds_def nth_res_def)
  have a: "get_input_inds demo_ext demo_ten_ds 0 [0, 0, 0] = Inr ([0..<length ten_points], ten_points)"
    by (rule fixed_count_small_scene [OF _ _ t(1)]) (simp_all add: demo_ten_ds_def demo_ds_def l)
  have b: "get_input_inds demo_ext (demo_ten_ds\<lparr>use_cubes := True\<rparr>) 0 [0, 0, 0] = Inl ValueError"
    by (rule fixed_count_cube_small_scene [OF _ _ _ t(2)])
      (simp_all add: demo_ten_ds_def demo_ds_def l)
  have f: "\<not> cylindric_input demo_ten_ds" "chosen_set demo_ten_ds = ''test''"
    "in_radius demo_ten_ds = - 256" "\<not> use_cubes demo_ten_ds"
    "input_trees demo_ten_ds = [ten_points]"
    by (simp_all add: demo_ten_ds_def demo_ds_def)
  let ?F = "[[1], [1], [1], [1], [1], [1], [1], [1], [1], [1 :: real]]"
  have lf: "length ?F = 10" by simp
  have r: "rows ?F [0..<10] = Inr ?F" using rows_upt [of ?F] unfolding lf .
  have "get_input_area demo_ext demo_ten_ds 0 [0, 0, 0]
       = Inr ([0..<10], ten_points,
              [[1], [1], [1], [1], [1], [1], [1], [1], [1], [1]],
              replicate 10 0)"
    by (simp add: get_input_area_def a f ten_features r l)
  moreover have "get_input_area demo_ext (demo_ten_ds\<lparr>use_cubes := True\<rparr>) 0 [0, 0, 0]
       = Inl ValueError"
    by (simp add: get_input_area_def b)
  ultimately show ?thesis using l f by simp
qed

section \<open>Properties of the Mix3D step\<close>

lemma pair_sums_even:
  "even (length xs) \<Longrightarrow>
     \<exists>ys. pair_sums xs = Inr ys \<and> length ys = length xs div 2 \<and> sum_list ys = sum_list xs
        \<and> (\<forall>j<length ys. ys ! j = xs ! (2 * j) + xs ! (2 * j + 1))"
proof (induction xs rule: pair_sums.induct)
  case 1
  then show ?case by simp
next
  case (2 x)
  then show ?case by simp
next
  case (3 x y xs)
  then obtain ys where ys: "pair_sums xs = Inr ys" "length ys = length xs div 2"
      "sum_list ys = sum_list xs" "\<forall>j<length ys. ys ! j = xs ! (2 * j) + xs ! (2 * j + 1)"
    by auto
  have "\<forall>j<length ((x + y) # ys). ((x + y) # ys) ! j
          = (x # y # xs) ! (2 * j) + (x # y # xs) ! (2 * j + 1)"
  proof (intro allI impI)
    fix j assume "j < length ((x + y) # ys)"
    then show "((x + y) # ys) ! j = (x # y # xs) ! (2 * j) + (x # y # xs) ! (2 * j + 1)"
      using ys(4) by (cases j) auto
  qed
  then show ?case using ys(1-3) by simp
qed

text \<open>
  What the arithmetic of the count needs from the rounding: a fraction \<open>m > 0\<close> gives
  \<open>1 - m \<le> 1\<close>, rounding keeps the order and leaves 1 and the integer \<open>B\<close> alone, so the
  rounded product is at most \<open>B\<close>.
\<close>

lemma rounded_product_le:
  assumes mono: "\<forall>x y. x \<le> y \<longrightarrow> fl x \<le> fl y"
    and one: "fl 1 = 1" and exact: "fl (real B) = real B" and m: "0 < m"
  shows "fl (fl (real B) * fl (1 - m)) \<le> real B"
proof -
  have "fl (1 - m) \<le> fl 1" using mono m by simp
  then have "fl (1 - m) \<le> 1" by (simp add: one)
  then have "real B * fl (1 - m) \<le> real B * 1" by (intro mult_left_mono) simp_all
  then have "fl (real B * fl (1 - m)) \<le> fl (real B)" using mono by simp
  then show ?thesis by (simp add: exact)
qed

lemma untouched_bounds:
  assumes "fl (fl (real B) * fl (1 - m)) \<le> real B"
  shows "0 \<le> untouched_count fl m B \<and> untouched_count fl m B \<le> int B
         \<and> even (int B - untouched_count fl m B)"
proof -
  let ?u0 = "max 0 \<lceil>fl (fl (real B) * fl (1 - m))\<rceil>"
  have "\<lceil>fl (fl (real B) * fl (1 - m))\<rceil> \<le> int B" using assms by (simp add: ceiling_le_iff)
  then have u0: "0 \<le> ?u0" "?u0 \<le> int B" by auto
  show ?thesis
  proof (cases "(int B - ?u0) mod 2 = 1")
    case True
    then have "?u0 \<noteq> int B" by auto
    then have "?u0 + 1 \<le> int B" using u0 by linarith
    moreover have "even (int B - (?u0 + 1))" using True by presburger
    ultimately show ?thesis using True u0 by (simp add: untouched_count_def Let_def)
  next
    case False
    then have "even (int B - ?u0)" by presburger
    then show ?thesis using False u0 by (simp add: untouched_count_def Let_def)
  qed
qed

lemma mix3D_lengths_zero: "mix3D_lengths 0 lens = Inr lens"
  by (simp add: mix3D_lengths_def slice_upto_def slice_from_def)

lemma mix3D_lengths_pos:
  assumes "0 < u" "u \<le> int (length lens)" "even (int (length lens) - u)"
  shows "\<exists>merged. pair_sums (take (length lens - nat u) lens) = Inr merged
           \<and> length merged = (length lens - nat u) div 2
           \<and> sum_list merged = sum_list (take (length lens - nat u) lens)
           \<and> (\<forall>j<length merged. merged ! j = lens ! (2 * j) + lens ! (2 * j + 1))
           \<and> mix3D_lengths u lens = Inr (merged @ drop (length lens - nat u) lens)"
proof -
  let ?n = "length lens - nat u"
  have n: "int ?n = int (length lens) - u" using assms by simp
  then have "even (int ?n)" using assms(3) by simp
  then have ev: "even (length (take ?n lens))" by simp
  obtain merged where m: "pair_sums (take ?n lens) = Inr merged"
      "length merged = length (take ?n lens) div 2"
      "sum_list merged = sum_list (take ?n lens)"
      "\<forall>j<length merged. merged ! j = take ?n lens ! (2 * j) + take ?n lens ! (2 * j + 1)"
    using pair_sums_even [OF ev] by blast
  have len: "length merged = ?n div 2" using m(2) by simp
  have idx: "\<forall>j<length merged. merged ! j = lens ! (2 * j) + lens ! (2 * j + 1)"
  proof (intro allI impI)
    fix j assume j: "j < length merged"
    then have "2 * j + 1 < ?n" using len ev by simp
    then show "merged ! j = lens ! (2 * j) + lens ! (2 * j + 1)"
      using m(4) j by simp
  qed
  have sl: "slice_upto lens (- u) = take ?n lens" "slice_from lens (- u) = drop ?n lens"
    using assms n by (simp_all add: slice_upto_def slice_from_def nat_diff_distrib')
  show ?thesis
    using m(1,3) len idx by (auto simp: mix3D_lengths_def sl)
qed

lemma mix3D_lengths_merged:
  assumes "0 \<le> u" "u \<le> int (length lens)" "even (int (length lens) - u)"
  shows "mix3D_lengths u lens = Inr (merged_lengths u lens)
         \<and> sum_list (merged_lengths u lens) = sum_list lens"
proof (cases "u = 0")
  case True
  then show ?thesis by (simp add: mix3D_lengths_zero merged_lengths_def)
next
  case False
  then have pos: "0 < u" using assms(1) by simp
  let ?n = "length lens - nat u"
  obtain merged where m: "length merged = ?n div 2"
      "sum_list merged = sum_list (take ?n lens)"
      "\<forall>j<length merged. merged ! j = lens ! (2 * j) + lens ! (2 * j + 1)"
      "mix3D_lengths u lens = Inr (merged @ drop ?n lens)"
    using mix3D_lengths_pos [OF pos assms(2,3)] by blast
  have eq: "merged = map (\<lambda>j. lens ! (2 * j) + lens ! (2 * j + 1)) [0..<?n div 2]"
    using m(1,3) by (intro nth_equalityI) simp_all
  have "sum_list (take ?n lens) + sum_list (drop ?n lens) = sum_list lens"
    by (simp only: sum_list_append [symmetric] append_take_drop_id)
  then have "sum_list (merged @ drop ?n lens) = sum_list lens"
    using m(2) by simp
  then show ?thesis using m(4) eq False by (simp add: merged_lengths_def)
qed

text \<open>The step on a batch of \<open>B\<close> regions, once the count is known to be at most \<open>B\<close>.\<close>

lemma mix3D_augment_merged:
  assumes tr: "chosen_set ds = ''training''" and m: "0 < mix3D ds"
    and l: "length (stack_lengths st) = B" and l0: "length (stack_lengths0 st) = B"
    and le: "round_double ext (round_double ext (real B) * round_double ext (1 - mix3D ds))
               \<le> real B"
    and u: "u = untouched_count (round_double ext) (mix3D ds) B"
  shows "mix3D_augment ext ds B st
           = Inr (st\<lparr>stack_lengths := merged_lengths u (stack_lengths st),
                    stack_lengths0 := merged_lengths u (stack_lengths0 st)\<rparr>)"
    and "sum_list (merged_lengths u (stack_lengths st)) = sum_list (stack_lengths st)"
    and "sum_list (merged_lengths u (stack_lengths0 st)) = sum_list (stack_lengths0 st)"
    and "0 \<le> u" and "u \<le> int B" and "even (int B - u)"
proof -
  show b: "0 \<le> u" "u \<le> int B" "even (int B - u)"
    using untouched_bounds [of "round_double ext" B "mix3D ds", OF le] u by simp_all
  have a: "mix3D_lengths u (stack_lengths st) = Inr (merged_lengths u (stack_lengths st))
         \<and> sum_list (merged_lengths u (stack_lengths st)) = sum_list (stack_lengths st)"
    using b l by (intro mix3D_lengths_merged) simp_all
  have c: "mix3D_lengths u (stack_lengths0 st) = Inr (merged_lengths u (stack_lengths0 st))
         \<and> sum_list (merged_lengths u (stack_lengths0 st)) = sum_list (stack_lengths0 st)"
    using b l0 by (intro mix3D_lengths_merged) simp_all
  show "mix3D_augment ext ds B st
           = Inr (st\<lparr>stack_lengths := merged_lengths u (stack_lengths st),
                    stack_lengths0 := merged_lengths u (stack_lengths0 st)\<rparr>)"
    using a c tr m u by (simp add: mix3D_augment_def Let_def)
  show "sum_list (merged_lengths u (stack_lengths st)) = sum_list (stack_lengths st)"
    using a by simp
  show "sum_list (merged_lengths u (stack_lengths0 st)) = sum_list (stack_lengths0 st)"
    using c by simp
qed

text \<open>With the fraction 1 the count is the parity of \<open>B\<close>.\<close>

lemma untouched_all_mixed:
  assumes "fl 0 = 0"
  shows "untouched_count fl 1 B = (if even B then 0 else 1)"
proof -
  have "\<lceil>fl (fl (real B) * fl (1 - 1))\<rceil> = 0" using assms by simp
  then have "untouched_count fl 1 B = (if int B mod 2 = 1 then 1 else 0)"
    by (simp add: untouched_count_def Let_def)
  then show ?thesis by presburger
qed

lemma merged_lengths_one:
  assumes "lens \<noteq> []"
  shows "merged_lengths 1 lens
     = map (\<lambda>j. lens ! (2 * j) + lens ! (2 * j + 1)) [0..<(length lens - 1) div 2] @ [last lens]"
proof -
  have "drop (length lens - 1) lens = [last lens]"
    using assms by (metis append_butlast_last_id append_eq_conv_conj length_butlast)
  then show ?thesis by (simp add: merged_lengths_def)
qed

text \<open>
  Claim C9.  In the training role with \<open>mix3D > 0\<close>, on a batch of \<open>B\<close> regions, the step
  succeeds and returns the stacked arrays with \<open>stack_lengths\<close> and \<open>stack_lengths0\<close>
  replaced and every other field (points, features, labels, centers, cloud indices, input
  indices, inverse indices) as it was.  Each new vector is \<open>merged_lengths\<close> of the old one
  for the count \<open>u\<close> of the source, computed in doubles: its merged entries are sums of two
  adjacent old entries, the last \<open>u\<close> entries are old entries, and its sum is the sum of the
  old vector.  The count lies between 0 and \<open>B\<close> and leaves an even number of regions to
  merge.  The rounding of the doubles is assumed to keep the order and to leave 1 and \<open>B\<close>
  alone, as rounding to nearest does for every \<open>B\<close> below \<open>2^53\<close>.
\<close>

theorem mix3D_alters_only_lengths:
  assumes "chosen_set ds = ''training''" and "0 < mix3D ds"
    and "length (stack_lengths st) = B" and "length (stack_lengths0 st) = B"
    and "\<forall>x y. x \<le> y \<longrightarrow> round_double ext x \<le> round_double ext y"
    and "round_double ext 1 = 1" and "round_double ext (real B) = real B"
    and "u = untouched_count (round_double ext) (mix3D ds) B"
  shows "mix3D_augment ext ds B st
           = Inr (st\<lparr>stack_lengths := merged_lengths u (stack_lengths st),
                    stack_lengths0 := merged_lengths u (stack_lengths0 st)\<rparr>)
         \<and> 0 \<le> u \<and> u \<le> int B \<and> even (int B - u)
         \<and> sum_list (merged_lengths u (stack_lengths st)) = sum_list (stack_lengths st)
         \<and> sum_list (merged_lengths u (stack_lengths0 st)) = sum_list (stack_lengths0 st)"
proof -
  have le: "round_double ext (round_double ext (real B) * round_double ext (1 - mix3D ds))
               \<le> real B"
    using assms(5,6,7,2) by (rule rounded_product_le)
  show ?thesis
    using mix3D_augment_merged [OF assms(1-4) le assms(8)] by simp
qed

lemma untouched_half: "untouched_count (\<lambda>x. x) (1 / 2) 4 = 2"
  by (simp add: untouched_count_def)

theorem mix3D_alters_only_lengths_witness:
  "chosen_set (demo_ds\<lparr>chosen_set := ''training'', mix3D := 1 / 2\<rparr>) = ''training''
   \<and> 0 < mix3D (demo_ds\<lparr>chosen_set := ''training'', mix3D := 1 / 2\<rparr>)
   \<and> length (stack_lengths demo_stacked) = 4 \<and> length (stack_lengths0 demo_stacked) = 4
   \<and> round_double demo_ext 1 = 1 \<and> round_double demo_ext (real 4) = real 4
   \<and> untouched_count (round_double demo_ext) (1 / 2) 4 = 2
   \<and> mix3D_augment demo_ext (demo_ds\<lparr>chosen_set := ''training'', mix3D := 1 / 2\<rparr>) 4 demo_stacked
       = Inr (demo_stacked\<lparr>stack_lengths := [8, 2, 7], stack_lengths0 := [10, 3, 8]\<rparr>)"
proof -
  let ?ds = "demo_ds\<lparr>chosen_set := ''training'', mix3D := 1 / 2\<rparr>"
  have h: "chosen_set ?ds = ''training''" "0 < mix3D ?ds"
    "length (stack_lengths demo_stacked) = 4" "length (stack_lengths0 demo_stacked) = 4"
    by (simp_all add: demo_stacked_def)
  have r: "\<forall>x y. x \<le> y \<longrightarrow> round_double demo_ext x \<le> round_double demo_ext y"
    "round_double demo_ext 1 = 1" "round_double demo_ext (real 4) = real 4"
    by (simp_all add: demo_ext_def)
  have u: "2 = untouched_count (round_double demo_ext) (mix3D ?ds) 4"
    by (simp add: demo_ext_def untouched_half)
  have m: "merged_lengths 2 (stack_lengths demo_stacked) = [8, 2, 7]"
    "merged_lengths 2 (stack_lengths0 demo_stacked) = [10, 3, 8]"
    by (simp_all add: merged_lengths_def demo_stacked_def)
  have "mix3D_augment demo_ext ?ds 4 demo_stacked
       = Inr (demo_stacked\<lparr>stack_lengths := [8, 2, 7], stack_lengths0 := [10, 3, 8]\<rparr>)"
    using mix3D_alters_only_lengths [OF h r u] by (simp add: m)
  then show ?thesis using h r u by simp
qed

text \<open>
  Claim C10.  On a batch of \<open>B\<close> regions with fraction \<open>m > 0\<close> the step merges with the
  count \<open>max(0, ceil(B (1 - m)))\<close>, taken in doubles, plus one when \<open>B\<close> minus it is odd.
  With \<open>m = 1\<close> and \<open>B\<close> even the count is 0, the slices \<open>[:-0]\<close> and \<open>[-0:]\<close> are the empty
  vector and the whole vector, and the step returns the batch unchanged.  With \<open>m = 1\<close> and
  \<open>B\<close> odd the count is 1: in both vectors the first \<open>B - 1\<close> lengths are summed in pairs
  and the last one is kept.  The rounding is assumed to keep the order and to leave 0, 1 and
  \<open>B\<close> alone.
\<close>

theorem mix3D_untouched_edge_cases:
  assumes "chosen_set ds = ''training''"
    and "length (stack_lengths st) = B" and "length (stack_lengths0 st) = B"
    and "\<forall>x y. x \<le> y \<longrightarrow> round_double ext x \<le> round_double ext y"
    and "round_double ext 0 = 0" and "round_double ext 1 = 1"
    and "round_double ext (real B) = real B"
  shows "(0 < mix3D ds \<longrightarrow>
            (let u0 = max 0 \<lceil>round_double ext
                               (round_double ext (real B) * round_double ext (1 - mix3D ds))\<rceil>;
                 u = (if odd (int B - u0) then u0 + 1 else u0)
             in mix3D_augment ext ds B st
                  = Inr (st\<lparr>stack_lengths := merged_lengths u (stack_lengths st),
                           stack_lengths0 := merged_lengths u (stack_lengths0 st)\<rparr>)))
       \<and> (mix3D ds = 1 \<and> even B \<longrightarrow> mix3D_augment ext ds B st = Inr st)
       \<and> (mix3D ds = 1 \<and> odd B \<longrightarrow>
            mix3D_augment ext ds B st
              = Inr (st\<lparr>stack_lengths :=
                         map (\<lambda>j. stack_lengths st ! (2 * j) + stack_lengths st ! (2 * j + 1))
                           [0..<(B - 1) div 2] @ [last (stack_lengths st)],
                       stack_lengths0 :=
                         map (\<lambda>j. stack_lengths0 st ! (2 * j) + stack_lengths0 st ! (2 * j + 1))
                           [0..<(B - 1) div 2] @ [last (stack_lengths0 st)]\<rparr>))"
proof (intro conjI impI)
  assume m: "0 < mix3D ds"
  have le: "round_double ext (round_double ext (real B) * round_double ext (1 - mix3D ds))
               \<le> real B"
    using assms(4,6,7) m by (rule rounded_product_le)
  let ?u0 = "max 0 \<lceil>round_double ext
                               (round_double ext (real B) * round_double ext (1 - mix3D ds))\<rceil>"
  have eq: "(if odd (int B - ?u0) then ?u0 + 1 else ?u0)
      = untouched_count (round_double ext) (mix3D ds) B"
    by (simp only: untouched_count_def Let_def odd_iff_mod_2_eq_one)
  have step: "mix3D_augment ext ds B st
      = Inr (st\<lparr>stack_lengths :=
                  merged_lengths (untouched_count (round_double ext) (mix3D ds) B) (stack_lengths st),
                stack_lengths0 :=
                  merged_lengths (untouched_count (round_double ext) (mix3D ds) B)
                    (stack_lengths0 st)\<rparr>)"
    by (rule mix3D_augment_merged(1) [OF assms(1) m assms(2,3) le refl])
  show "let u0 = max 0 \<lceil>round_double ext
                               (round_double ext (real B) * round_double ext (1 - mix3D ds))\<rceil>;
                 u = (if odd (int B - u0) then u0 + 1 else u0)
             in mix3D_augment ext ds B st
                  = Inr (st\<lparr>stack_lengths := merged_lengths u (stack_lengths st),
                           stack_lengths0 := merged_lengths u (stack_lengths0 st)\<rparr>)"
    unfolding Let_def eq by (fact step)
next
  assume "mix3D ds = 1 \<and> even B"
  then show "mix3D_augment ext ds B st = Inr st"
    using assms(1,5)
    by (simp add: mix3D_augment_def untouched_all_mixed mix3D_lengths_zero)
next
  assume o: "mix3D ds = 1 \<and> odd B"
  then have m: "0 < mix3D ds" by simp
  have u: "1 = untouched_count (round_double ext) (mix3D ds) B"
    using o assms(5) by (simp add: untouched_all_mixed)
  have le: "round_double ext (round_double ext (real B) * round_double ext (1 - mix3D ds))
               \<le> real B"
    using assms(4,6,7) m by (rule rounded_product_le)
  have ne: "stack_lengths st \<noteq> []" "stack_lengths0 st \<noteq> []"
    using o assms(2,3) by auto
  have "mix3D_augment ext ds B st
      = Inr (st\<lparr>stack_lengths := merged_lengths 1 (stack_lengths st),
                stack_lengths0 := merged_lengths 1 (stack_lengths0 st)\<rparr>)"
    by (rule mix3D_augment_merged(1) [OF assms(1) m assms(2,3) le u])
  then show "mix3D_augment ext ds B st
              = Inr (st\<lparr>stack_lengths :=
                         map (\<lambda>j. stack_lengths st ! (2 * j) + stack_lengths st ! (2 * j + 1))
                           [0..<(B - 1) div 2] @ [last (stack_lengths st)],
                       stack_lengths0 :=
                         map (\<lambda>j. stack_lengths0 st ! (2 * j) + stack_lengths0 st ! (2 * j + 1))
                           [0..<(B - 1) div 2] @ [last (stack_lengths0 st)]\<rparr>)"
    using ne assms(2,3) by (simp add: merged_lengths_one)
qed

theorem mix3D_untouched_edge_cases_witness:
  "chosen_set (demo_ds\<lparr>chosen_set := ''training'', mix3D := 1\<rparr>) = ''training''
   \<and> length (stack_lengths demo_stacked) = 4 \<and> length (stack_lengths0 demo_stacked) = 4
   \<and> length (stack_lengths demo_stacked_odd) = 3 \<and> length (stack_lengths0 demo_stacked_odd) = 3
   \<and> round_double demo_ext 0 = 0 \<and> round_double demo_ext 1 = 1
   \<and> round_double demo_ext (real 4) = real 4 \<and> round_double demo_ext (real 3) = real 3
   \<and> mix3D (demo_ds\<lparr>chosen_set := ''training'', mix3D := 1\<rparr>) = 1 \<and> even (4 :: nat)
   \<and> odd (3 :: nat)
   \<and> mix3D_augment demo_ext (demo_ds\<lparr>chosen_set := ''training'', mix3D := 1\<rparr>) 4 demo_stacked
       = Inr demo_stacked
   \<and> mix3D_augment demo_ext (demo_ds\<lparr>chosen_set := ''training'', mix3D := 1\<rparr>) 3
         demo_stacked_odd
       = Inr (demo_stacked_odd\<lparr>stack_lengths := [8, 2], stack_lengths0 := [10, 3]\<rparr>)"
proof -
  let ?ds = "demo_ds\<lparr>chosen_set := ''training'', mix3D := 1\<rparr>"
  have h: "chosen_set ?ds = ''training''" by simp
  have l4: "length (stack_lengths demo_stacked) = 4" "length (stack_lengths0 demo_stacked) = 4"
    by (simp_all add: demo_stacked_def)
  have l3: "length (stack_lengths demo_stacked_odd) = 3"
    "length (stack_lengths0 demo_stacked_odd) = 3"
    by (simp_all add: demo_stacked_odd_def)
  have r: "\<forall>x y. x \<le> y \<longrightarrow> round_double demo_ext x \<le> round_double demo_ext y"
    "round_double demo_ext 0 = 0" "round_double demo_ext 1 = 1"
    by (simp_all add: demo_ext_def)
  have e: "round_double demo_ext (real 4) = real 4" "round_double demo_ext (real 3) = real 3"
    by (simp_all add: demo_ext_def)
  have m: "mix3D ?ds = 1 \<and> even (4 :: nat)" "mix3D ?ds = 1 \<and> odd (3 :: nat)" by simp_all
  note E = mix3D_untouched_edge_cases [OF h l4 r e(1)]
  note O = mix3D_untouched_edge_cases [OF h l3 r e(2)]
  have a: "mix3D_augment demo_ext ?ds 4 demo_stacked = Inr demo_stacked"
    using mp [OF conjunct1 [OF conjunct2 [OF E]] m(1)] .
  have "mix3D_augment demo_ext ?ds 3 demo_stacked_odd
      = Inr (demo_stacked_odd\<lparr>stack_lengths :=
                 map (\<lambda>j. stack_lengths demo_stacked_odd ! (2 * j)
                         + stack_lengths demo_stacked_odd ! (2 * j + 1)) [0..<(3 - 1) div 2]
                   @ [last (stack_lengths demo_stacked_odd)],
               stack_lengths0 :=
                 map (\<lambda>j. stack_lengths0 demo_stacked_odd ! (2 * j)
                         + stack_lengths0 demo_stacked_odd ! (2 * j + 1)) [0..<(3 - 1) div 2]
                   @ [last (stack_lengths0 demo_stacked_odd)]\<rparr>)"
    using mp [OF conjunct2 [OF conjunct2 [OF O]] m(2)] .
  then have b: "mix3D_augment demo_ext ?ds 3 demo_stacked_odd
       = Inr (demo_stacked_odd\<lparr>stack_lengths := [8, 2], stack_lengths0 := [10, 3]\<rparr>)"
    by (simp add: demo_stacked_odd_def)
  show ?thesis using h l4 l3 r e m a b by simp
qed

section \<open>Properties of the batch assembler\<close>

lemma sample_END:
  assumes "sample_input_center ds cn w = Some (Inr (None, ds', w'))"
  shows "data_sampler ds = ''regular'' \<and> chosen_set ds \<noteq> ''validation'' \<and> ds' = ds \<and> w' = w"
  using assms
  by (auto simp: sample_input_center_def sample_regular_def next_regular_def noisy_center_def
      Let_def split: if_splits option.splits sum.splits prod.splits)

lemma redraw_label_slept_aux:
  assumes "redraw_label ds l w = Some r"
  shows "\<forall>l' w'. r = Inr (l', w') \<longrightarrow> slept w' = slept w"
proof (rule redraw_label.raw_induct
    [where P = "\<lambda>ds l w r. \<forall>l' w'. r = Inr (l', w') \<longrightarrow> slept w' = slept w", OF _ assms])
  fix redraw ds rand_l w r
  assume IH: "\<And>ds l w r. redraw ds l w = Some r
      \<Longrightarrow> \<forall>l' w'. r = Inr (l', w') \<longrightarrow> slept w' = slept w"
    and eq: "(if int rand_l \<in> set (ignored_labels ds) then
        (case np_random_choice (num_classes ds) w of
           Inl e \<Rightarrow> Some (Inl e)
         | Inr (l, w1) \<Rightarrow> redraw ds l w1)
      else Some (Inr (rand_l, w))) = Some r"
  show "\<forall>l' w'. r = Inr (l', w') \<longrightarrow> slept w' = slept w"
    using eq IH
    by (fastforce simp: np_random_choice_def split: if_splits sum.splits prod.splits)
qed

lemma redraw_label_slept:
  "redraw_label ds l w = Some (Inr (l', w')) \<Longrightarrow> slept w' = slept w"
  using redraw_label_slept_aux by blast

lemma sample_frame:
  assumes "sample_input_center ds cn w = Some (Inr (c, ds', w'))"
  shows "ds'\<lparr>input_trees := input_trees ds, reg_sampling_i := reg_sampling_i ds,
             reg_votes := reg_votes ds, reg_sample := reg_sample ds\<rparr> = ds
         \<and> slept w' = slept w"
  using assms
  by (auto simp: sample_input_center_def sample_regular_def next_regular_def noisy_center_def
      new_reg_sampling_pts_def pick_c_random_def pick_A_random_def pick_random_def
      np_random_choice_def np_random_normal_def
      Let_def split: if_splits option.splits sum.splits prod.splits
      dest: redraw_label_slept)

lemma same_config_refl: "same_config ds ds"
  by (simp add: same_config_def)

lemma same_config_fields:
  assumes "same_config ds ds'"
  shows "b_lim ds' = b_lim ds" "in_radius ds' = in_radius ds"
    "data_sampler ds' = data_sampler ds" "chosen_set ds' = chosen_set ds"
proof -
  let ?d = "ds'\<lparr>input_trees := input_trees ds, reg_sampling_i := reg_sampling_i ds,
         reg_votes := reg_votes ds, reg_sample := reg_sample ds\<rparr>"
  have e: "?d = ds" using assms by (simp add: same_config_def)
  have "b_lim ?d = b_lim ds'" "in_radius ?d = in_radius ds'"
    "data_sampler ?d = data_sampler ds'" "chosen_set ?d = chosen_set ds'" by simp_all
  then show "b_lim ds' = b_lim ds" "in_radius ds' = in_radius ds"
    "data_sampler ds' = data_sampler ds" "chosen_set ds' = chosen_set ds"
    by (simp_all only: e)
qed

lemma same_config_trans:
  assumes "same_config ds ds1" "same_config ds1 ds2"
  shows "same_config ds ds2"
proof -
  have "ds2\<lparr>input_trees := input_trees ds1, reg_sampling_i := reg_sampling_i ds1,
         reg_votes := reg_votes ds1, reg_sample := reg_sample ds1\<rparr> = ds1"
    using assms(2) by (simp add: same_config_def)
  then have "(ds2\<lparr>input_trees := input_trees ds1, reg_sampling_i := reg_sampling_i ds1,
         reg_votes := reg_votes ds1, reg_sample := reg_sample ds1\<rparr>)\<lparr>
         input_trees := input_trees ds, reg_sampling_i := reg_sampling_i ds,
         reg_votes := reg_votes ds, reg_sample := reg_sample ds\<rparr>
       = ds1\<lparr>input_trees := input_trees ds, reg_sampling_i := reg_sampling_i ds,
         reg_votes := reg_votes ds, reg_sample := reg_sample ds\<rparr>" by simp
  then show ?thesis using assms(1) by (simp add: same_config_def)
qed

lemma sample_same_config:
  "sample_input_center ds cn w = Some (Inr (c, ds', w')) \<Longrightarrow> same_config ds ds'"
  using sample_frame by (simp add: same_config_def)

lemma prepare_region_slept:
  "prepare_region ext ds area w = (reg, w') \<Longrightarrow> slept w' = slept w"
  by (auto simp: prepare_region_def Let_def split: prod.splits if_splits)

lemma stack_region_p_list:
  "p_list (stack_region ds acc c p inds reg) = p_list acc @ [fst (fst reg)]"
  by (simp add: stack_region_def Let_def split: prod.splits)

lemma stack_region_fixed_count:
  "in_radius ds < 0 \<Longrightarrow>
     batch_n_pts (stack_region ds acc c p inds reg) = batch_n_pts acc + \<lfloor>- in_radius ds\<rfloor>"
  by (simp add: stack_region_def Let_def split: prod.splits)

lemma getitem_step_inv:
  assumes "getitem_step ext ds acc w = Some (Inr (stop, acc', ds', w'))"
  shows "step_ok ds acc w acc' ds' w'
       \<and> (stop \<longrightarrow> exit_ok ds acc' ds' w')
       \<and> (stop \<and> p_list acc' = p_list acc \<longrightarrow> acc' = acc \<and> ds' = ds \<and> w' = w)"
proof -
  obtain c ds1 w1 where s: "sample_input_center ds (5 / 100) w = Some (Inr (c, ds1, w1))"
    using assms by (auto simp: getitem_step_def split: option.splits sum.splits)
  have sc: "same_config ds ds1" and sl: "slept w1 = slept w"
    using sample_same_config [OF s] sample_frame [OF s] by simp_all
  show ?thesis
  proof (cases c)
    case None
    then have e: "stop" "acc' = acc" "ds' = ds1" "w' = w1"
      using assms s by (simp_all add: getitem_step_def)
    have n: "data_sampler ds = ''regular''" "chosen_set ds \<noteq> ''validation''" "ds1 = ds" "w1 = w"
      using sample_END [of ds "5 / 100" w ds1 w1] s None by simp_all
    have "step_ok ds acc w acc' ds' w'"
      using e n by (simp add: step_ok_def same_config_refl)
    moreover have "exit_ok ds acc' ds' w'"
      using e n s None by (simp add: exit_ok_def)
    ultimately show ?thesis using e n by simp
  next
    case (Some cp)
    obtain cloud_ind c_point where cp: "cp = (cloud_ind, c_point)" by (cases cp)
    obtain in_inds in_points in_features in_labels where
      g: "get_input_area ext ds1 cloud_ind c_point
            = Inr (in_inds, in_points, in_features, in_labels)"
      using assms s Some cp
      by (auto simp: getitem_step_def split: sum.splits)
    show ?thesis
    proof (cases "length in_points < 1")
      case True
      then have e: "\<not> stop" "acc' = acc" "ds' = ds1" "w' = w1"
        using assms s Some cp g by (simp_all add: getitem_step_def)
      have "step_ok ds acc w acc' ds' w'" using e sc sl by (simp add: step_ok_def)
      then show ?thesis using e by simp
    next
      case False
      obtain reg w2 where
        pr: "prepare_region ext ds1 (in_points, in_features, in_labels) w1 = (reg, w2)"
        by (cases "prepare_region ext ds1 (in_points, in_features, in_labels) w1")
      let ?acc = "stack_region ds1 acc cloud_ind c_point in_inds reg"
      have e: "stop = (py_int (b_lim ds1) < batch_n_pts ?acc)" "acc' = ?acc" "ds' = ds1" "w' = w2"
        using assms s Some cp g False pr by (auto simp: getitem_step_def Let_def)
      have len: "length (p_list acc') = Suc (length (p_list acc))"
        using e by (simp add: stack_region_p_list)
      have f: "b_lim ds1 = b_lim ds" "in_radius ds1 = in_radius ds"
        using same_config_fields [OF sc] by simp_all
      have k: "in_radius ds < 0 \<Longrightarrow> batch_n_pts acc' = batch_n_pts acc + \<lfloor>- in_radius ds\<rfloor>"
        using e f stack_region_fixed_count [of ds1 acc cloud_ind c_point in_inds reg] by simp
      have "step_ok ds acc w acc' ds' w'"
        using e sc sl len k prepare_region_slept [OF pr] by (simp add: step_ok_def)
      moreover have "stop \<longrightarrow> exit_ok ds acc' ds' w'"
        using e f len by (auto simp: exit_ok_def)
      ultimately show ?thesis using len by auto
    qed
  qed
qed

lemma step_ok_trans:
  assumes "step_ok ds acc w acc1 ds1 w1" "step_ok ds1 acc1 w1 acc2 ds2 w2"
  shows "step_ok ds acc w acc2 ds2 w2"
proof -
  have sc: "same_config ds ds1" "same_config ds1 ds2"
    using assms by (simp_all add: step_ok_def)
  have r: "in_radius ds1 = in_radius ds" using same_config_fields [OF sc(1)] by simp
  have "same_config ds ds2" using sc by (rule same_config_trans)
  then show ?thesis
    using assms r by (auto simp: step_ok_def algebra_simps)
qed

lemma exit_ok_config:
  assumes "same_config ds ds1" "exit_ok ds1 acc' ds' w'"
  shows "exit_ok ds acc' ds' w'"
  using assms(2) same_config_fields [OF assms(1)] by (simp add: exit_ok_def)

lemma getitem_loop_inv_aux:
  assumes "getitem_loop ext ds acc w = Some r"
  shows "\<forall>acc' ds' w'. r = Inr (acc', ds', w')
           \<longrightarrow> step_ok ds acc w acc' ds' w' \<and> exit_ok ds acc' ds' w'"
proof (rule getitem_loop.raw_induct
    [where P = "\<lambda>ext ds acc w r. \<forall>acc' ds' w'. r = Inr (acc', ds', w')
           \<longrightarrow> step_ok ds acc w acc' ds' w' \<and> exit_ok ds acc' ds' w'", OF _ assms])
  fix loop ext ds acc w r
  assume IH: "\<And>ext ds acc w r. loop ext ds acc w = Some r
      \<Longrightarrow> \<forall>acc' ds' w'. r = Inr (acc', ds', w')
           \<longrightarrow> step_ok ds acc w acc' ds' w' \<and> exit_ok ds acc' ds' w'"
    and eq: "(case getitem_step ext ds acc w of
        None \<Rightarrow> None
      | Some (Inl e) \<Rightarrow> Some (Inl e)
      | Some (Inr (stop, acc', ds', w')) \<Rightarrow>
          if stop then Some (Inr (acc', ds', w')) else loop ext ds' acc' w') = Some r"
  show "\<forall>acc' ds' w'. r = Inr (acc', ds', w')
           \<longrightarrow> step_ok ds acc w acc' ds' w' \<and> exit_ok ds acc' ds' w'"
  proof (intro allI impI)
    fix acc' ds' w' assume r: "r = Inr (acc', ds', w')"
    obtain stop acc1 ds1 w1 where
      st: "getitem_step ext ds acc w = Some (Inr (stop, acc1, ds1, w1))"
      using eq r by (auto split: option.splits sum.splits)
    note inv = getitem_step_inv [OF st]
    show "step_ok ds acc w acc' ds' w' \<and> exit_ok ds acc' ds' w'"
    proof (cases stop)
      case True
      then have "acc1 = acc'" "ds1 = ds'" "w1 = w'" using eq st r by simp_all
      then show ?thesis using inv True by simp
    next
      case False
      then have "loop ext ds1 acc1 w1 = Some (Inr (acc', ds', w'))" using eq st r by simp
      then have n: "step_ok ds1 acc1 w1 acc' ds' w'" "exit_ok ds1 acc' ds' w'"
        using IH by blast+
      have "same_config ds ds1" using inv by (simp add: step_ok_def)
      then show ?thesis
        using n inv step_ok_trans exit_ok_config by blast
    qed
  qed
qed

lemma getitem_loop_inv:
  assumes "getitem_loop ext ds acc w = Some (Inr (acc', ds', w'))"
  shows "step_ok ds acc w acc' ds' w'" "exit_ok ds acc' ds' w'"
  using getitem_loop_inv_aux [OF assms] by simp_all

lemmas demo_defs = demo_ds_def demo_world_def demo_ext_def empty_lists_def

lemmas sampler_defs = sample_input_center_def sample_regular_def next_regular_def py_index_def
  pick_random_def np_random_choice_def noisy_center_def nth_res_def np_random_normal_def Let_def

lemmas area_defs = get_input_area_def get_input_inds_def area_fixed_radius_def
  area_fixed_count_def query_radius_of_def rows_def sq_dist_def in_cube_def
  argpartition_res_def cube_dist_def

lemmas batch_defs = getitem_step_def prepare_region_def stack_region_def py_int_def

lemma getitem_loop_continue:
  "getitem_step ext ds acc w = Some (Inr (False, acc', ds', w'))
     \<Longrightarrow> getitem_loop ext ds acc w = getitem_loop ext ds' acc' w'"
  by (subst getitem_loop.simps) simp

lemma getitem_loop_stop:
  "getitem_step ext ds acc w = Some (Inr (True, acc', ds', w'))
     \<Longrightarrow> getitem_loop ext ds acc w = Some (Inr (acc', ds', w'))"
  by (subst getitem_loop.simps) simp

lemma random_in_random: "sublist ''random'' ''random''"
  by code_simp

lemma demo_loop:
  "getitem_loop demo_ext demo_ds empty_lists demo_world
     = Some (Inr (demo_acc, demo_ds\<lparr>reg_sampling_i := 2\<rparr>, demo_world\<lparr>tick := 2\<rparr>))"
proof -
  let ?acc1 = "\<lparr>p_list = [[[0, 0, 0], [1, 0, 0]]], f_list = [[[1, 0], [1, 0]]],
      l_list = [[0, 0]], i_list = [[0, 0, 0]], pi_list = [[0, 1]], pinv_list = [[0, 1]],
      ci_list = [0], batch_n_pts = 2\<rparr> :: batch_lists"
  have s1: "getitem_step demo_ext demo_ds empty_lists demo_world
      = Some (Inr (False, ?acc1, demo_ds\<lparr>reg_sampling_i := 1\<rparr>, demo_world\<lparr>tick := 1\<rparr>))"
    by (simp add: demo_defs sampler_defs area_defs batch_defs Let_def)
  have s2: "getitem_step demo_ext (demo_ds\<lparr>reg_sampling_i := 1\<rparr>) ?acc1 (demo_world\<lparr>tick := 1\<rparr>)
      = Some (Inr (False, demo_acc, demo_ds\<lparr>reg_sampling_i := 2\<rparr>, demo_world\<lparr>tick := 2\<rparr>))"
    by (simp add: demo_defs demo_acc_def sampler_defs area_defs batch_defs Let_def)
  have s3: "getitem_step demo_ext (demo_ds\<lparr>reg_sampling_i := 2\<rparr>) demo_acc (demo_world\<lparr>tick := 2\<rparr>)
      = Some (Inr (True, demo_acc, demo_ds\<lparr>reg_sampling_i := 2\<rparr>, demo_world\<lparr>tick := 2\<rparr>))"
    by (simp add: demo_defs sampler_defs batch_defs)
  show ?thesis
    by (simp only: getitem_loop_continue [OF s1] getitem_loop_continue [OF s2]
        getitem_loop_stop [OF s3])
qed

lemma demo_fixed_loop:
  "getitem_loop demo_ext demo_fixed_ds empty_lists demo_world
     = Some (Inr (demo_fixed_acc, demo_fixed_ds, demo_world\<lparr>tick := 6\<rparr>))"
proof -
  let ?acc1 = "\<lparr>p_list = [[[0, 0, 0], [1, 0, 0]]], f_list = [[[1, 0], [1, 0]]],
      l_list = [[0, 0]], i_list = [[0, 0, 0]], pi_list = [[0, 1]], pinv_list = [[0, 1]],
      ci_list = [0], batch_n_pts = 2\<rparr> :: batch_lists"
  have s1: "getitem_step demo_ext demo_fixed_ds empty_lists demo_world
      = Some (Inr (False, ?acc1, demo_fixed_ds, demo_world\<lparr>tick := 3\<rparr>))"
    by (simp add: demo_defs demo_fixed_ds_def sampler_defs area_defs batch_defs Let_def
        random_in_random)
  have s2: "getitem_step demo_ext demo_fixed_ds ?acc1 (demo_world\<lparr>tick := 3\<rparr>)
      = Some (Inr (True, demo_fixed_acc, demo_fixed_ds, demo_world\<lparr>tick := 6\<rparr>))"
    by (simp add: demo_defs demo_fixed_ds_def demo_fixed_acc_def sampler_defs area_defs
        batch_defs Let_def random_in_random)
  show ?thesis
    by (simp only: getitem_loop_continue [OF s1] getitem_loop_stop [OF s2])
qed

lemma py_int_less:
  assumes "py_int b < n" shows "b < real_of_int n"
proof (cases "0 \<le> b")
  case True
  then show ?thesis using assms by (simp add: py_int_def floor_less_iff)
next
  case False
  then have "\<lceil>b\<rceil> < n" using assms by (simp add: py_int_def)
  then have "real_of_int \<lceil>b\<rceil> < real_of_int n" by simp
  then show ?thesis using le_of_int_ceiling [of b] by linarith
qed

text \<open>
  Claim C2, as amended.  When the accumulation loop of \<open>__getitem__\<close> returns, either the
  running total strictly exceeds \<open>int(b_lim)\<close>, hence \<open>b_lim\<close>, and at least one region
  was stacked, or the sampler is exhausted: it returned the sentinel, which only the regular
  policy outside the validation role does, and it returns it again in the state reached.  So
  the loop never stops with a total at most the budget while centers are still to be had;
  but it may stop, exhausted, with some regions stacked and a total at most the budget.  In
  fixed-count mode (\<open>in_radius < 0\<close>) stacking a region adds exactly \<open>-in_radius\<close> to the
  total, whatever its number of points, and the total is that count times the number of
  regions.
\<close>

theorem getitem_returns_full_or_exhausted:
  assumes "getitem_loop ext ds empty_lists w = Some (Inr (acc, ds', w'))"
  shows "((py_int (b_lim ds) < batch_n_pts acc \<and> b_lim ds < real_of_int (batch_n_pts acc)
            \<and> p_list acc \<noteq> [])
          \<or> (sample_input_center ds' (5 / 100) w' = Some (Inr (None, ds', w'))
             \<and> data_sampler ds = ''regular'' \<and> chosen_set ds \<noteq> ''validation''))
       \<and> (in_radius ds < 0 \<longrightarrow>
            batch_n_pts acc = \<lfloor>- in_radius ds\<rfloor> * int (length (p_list acc))
            \<and> (\<forall>acc0 c p inds reg.
                  batch_n_pts (stack_region ds acc0 c p inds reg)
                    = batch_n_pts acc0 + \<lfloor>- in_radius ds\<rfloor>))"
proof -
  have e: "exit_ok ds acc ds' w'" and t: "step_ok ds empty_lists w acc ds' w'"
    using getitem_loop_inv [OF assms] by simp_all
  have "(py_int (b_lim ds) < batch_n_pts acc \<and> b_lim ds < real_of_int (batch_n_pts acc)
            \<and> p_list acc \<noteq> [])
          \<or> (sample_input_center ds' (5 / 100) w' = Some (Inr (None, ds', w'))
             \<and> data_sampler ds = ''regular'' \<and> chosen_set ds \<noteq> ''validation'')"
    using e py_int_less [of "b_lim ds" "batch_n_pts acc"] by (auto simp: exit_ok_def)
  moreover have "in_radius ds < 0 \<longrightarrow>
      batch_n_pts acc = \<lfloor>- in_radius ds\<rfloor> * int (length (p_list acc))"
    using t by (simp add: step_ok_def empty_lists_def)
  ultimately show ?thesis using stack_region_fixed_count by blast
qed

theorem getitem_returns_full_or_exhausted_witness:
  "getitem_loop demo_ext demo_ds empty_lists demo_world
     = Some (Inr (demo_acc, demo_ds\<lparr>reg_sampling_i := 2\<rparr>, demo_world\<lparr>tick := 2\<rparr>))
   \<and> sample_input_center (demo_ds\<lparr>reg_sampling_i := 2\<rparr>) (5 / 100) (demo_world\<lparr>tick := 2\<rparr>)
     = Some (Inr (None, demo_ds\<lparr>reg_sampling_i := 2\<rparr>, demo_world\<lparr>tick := 2\<rparr>))
   \<and> getitem_loop demo_ext demo_fixed_ds empty_lists demo_world
     = Some (Inr (demo_fixed_acc, demo_fixed_ds, demo_world\<lparr>tick := 6\<rparr>))
   \<and> in_radius demo_fixed_ds < 0
   \<and> b_lim demo_fixed_ds < real_of_int (batch_n_pts demo_fixed_acc)
   \<and> batch_n_pts demo_fixed_acc = 2 * int (length (p_list demo_fixed_acc))"
proof -
  have a: "\<not> py_int (b_lim demo_ds) < batch_n_pts demo_acc"
    by (simp add: demo_ds_def demo_acc_def py_int_def)
  have b: "in_radius demo_fixed_ds < 0" "\<lfloor>- in_radius demo_fixed_ds\<rfloor> = 2"
    "data_sampler demo_fixed_ds \<noteq> ''regular''"
    by (simp_all add: demo_fixed_ds_def)
  show ?thesis
    using getitem_returns_full_or_exhausted [OF demo_loop] a
      getitem_returns_full_or_exhausted [OF demo_fixed_loop] b demo_loop demo_fixed_loop
    by simp
qed

text \<open>
  The claim as stated fails: in the test role, with a queue of two centers and a budget of
  10, the loop returns two regions holding three points.
\<close>

theorem getitem_partial_batch_below_budget:
  "getitem_loop demo_ext demo_ds empty_lists demo_world
     = Some (Inr (demo_acc, demo_ds\<lparr>reg_sampling_i := 2\<rparr>, demo_world\<lparr>tick := 2\<rparr>))
   \<and> length (p_list demo_acc) = 2
   \<and> batch_n_pts demo_acc = 3
   \<and> b_lim demo_ds = 10"
  using demo_loop by (simp add: demo_acc_def demo_ds_def)

lemma getitem_step_cases:
  assumes "getitem_step ext ds acc w = Some (Inr (stop, acc1, ds1, w1))"
  shows "(stop \<and> acc1 = acc \<and> ds1 = ds \<and> w1 = w
            \<and> sample_input_center ds (5 / 100) w = Some (Inr (None, ds, w)))
       \<or> (\<not> stop \<and> acc1 = acc
            \<and> (\<exists>c p inds fs ls.
                  sample_input_center ds (5 / 100) w = Some (Inr (Some (c, p), ds1, w1))
                  \<and> get_input_area ext ds1 c p = Inr (inds, [], fs, ls)))
       \<or> length (p_list acc1) = Suc (length (p_list acc))"
proof -
  obtain c d v where s: "sample_input_center ds (5 / 100) w = Some (Inr (c, d, v))"
    using assms by (auto simp: getitem_step_def split: option.splits sum.splits)
  show ?thesis
  proof (cases c)
    case None
    then have e: "stop" "acc1 = acc" "ds1 = d" "w1 = v"
      using assms s by (simp_all add: getitem_step_def)
    have "d = ds" "v = w" using sample_END [of ds "5 / 100" w d v] s None by simp_all
    then show ?thesis using e s None by simp
  next
    case (Some cp)
    obtain cloud_ind c_point where cp: "cp = (cloud_ind, c_point)" by (cases cp)
    obtain inds pts fs ls where
      g: "get_input_area ext d cloud_ind c_point = Inr (inds, pts, fs, ls)"
      using assms s Some cp by (auto simp: getitem_step_def split: sum.splits)
    show ?thesis
    proof (cases "pts = []")
      case True
      then have "\<not> stop" "acc1 = acc" "ds1 = d" "w1 = v"
        using assms s Some cp g by (simp_all add: getitem_step_def)
      then show ?thesis using s Some cp g True by blast
    next
      case False
      then have "length (p_list acc1) = Suc (length (p_list acc))"
        using assms s Some cp g
        by (auto simp: getitem_step_def Let_def stack_region_p_list split: prod.splits)
      then show ?thesis by simp
    qed
  qed
qed

lemma getitem_loop_nothing_aux:
  assumes "getitem_loop ext ds acc w = Some r"
  shows "\<forall>acc' ds' w'. r = Inr (acc', ds', w') \<longrightarrow>
           length (p_list acc) \<le> length (p_list acc')
           \<and> (length (p_list acc') = length (p_list acc)
                \<longrightarrow> acc' = acc \<and> drains ext ds w ds' w')"
proof (rule getitem_loop.raw_induct
    [where P = "\<lambda>ext ds acc w r. \<forall>acc' ds' w'. r = Inr (acc', ds', w') \<longrightarrow>
           length (p_list acc) \<le> length (p_list acc')
           \<and> (length (p_list acc') = length (p_list acc)
                \<longrightarrow> acc' = acc \<and> drains ext ds w ds' w')", OF _ assms])
  fix loop ext ds acc w r
  assume IH: "\<And>ext ds acc w r. loop ext ds acc w = Some r
      \<Longrightarrow> \<forall>acc' ds' w'. r = Inr (acc', ds', w') \<longrightarrow>
           length (p_list acc) \<le> length (p_list acc')
           \<and> (length (p_list acc') = length (p_list acc)
                \<longrightarrow> acc' = acc \<and> drains ext ds w ds' w')"
    and eq: "(case getitem_step ext ds acc w of
        None \<Rightarrow> None
      | Some (Inl e) \<Rightarrow> Some (Inl e)
      | Some (Inr (stop, acc', ds', w')) \<Rightarrow>
          if stop then Some (Inr (acc', ds', w')) else loop ext ds' acc' w') = Some r"
  show "\<forall>acc' ds' w'. r = Inr (acc', ds', w') \<longrightarrow>
           length (p_list acc) \<le> length (p_list acc')
           \<and> (length (p_list acc') = length (p_list acc)
                \<longrightarrow> acc' = acc \<and> drains ext ds w ds' w')"
  proof (intro allI impI)
    fix acc' ds' w' assume r: "r = Inr (acc', ds', w')"
    obtain stop acc1 ds1 w1 where
      st: "getitem_step ext ds acc w = Some (Inr (stop, acc1, ds1, w1))"
      using eq r by (auto split: option.splits sum.splits)
    have rest: "if stop then acc1 = acc' \<and> ds1 = ds' \<and> w1 = w'
                else loop ext ds1 acc1 w1 = Some (Inr (acc', ds', w'))"
      using eq st r by (simp split: if_splits)
    consider
      (finish) "stop" "acc1 = acc" "ds1 = ds" "w1 = w"
        "sample_input_center ds (5 / 100) w = Some (Inr (None, ds, w))"
    | (skip) c p inds fs ls where "\<not> stop" "acc1 = acc"
        "sample_input_center ds (5 / 100) w = Some (Inr (Some (c, p), ds1, w1))"
        "get_input_area ext ds1 c p = Inr (inds, [], fs, ls)"
    | (stacked) "length (p_list acc1) = Suc (length (p_list acc))"
      using getitem_step_cases [OF st] by blast
    then show "length (p_list acc) \<le> length (p_list acc')
           \<and> (length (p_list acc') = length (p_list acc)
                \<longrightarrow> acc' = acc \<and> drains ext ds w ds' w')"
    proof cases
      case finish
      then have "acc' = acc" "ds' = ds" "w' = w" using rest by simp_all
      then show ?thesis using finish(5) by (simp add: drains_end)
    next
      case skip
      then have "loop ext ds1 acc w1 = Some (Inr (acc', ds', w'))" using rest by simp
      then have n: "length (p_list acc) \<le> length (p_list acc')"
        "length (p_list acc') = length (p_list acc) \<longrightarrow> acc' = acc \<and> drains ext ds1 w1 ds' w'"
        using IH by blast+
      show ?thesis using n drains_skip [OF skip(3,4)] by blast
    next
      case stacked
      have "length (p_list acc1) \<le> length (p_list acc')"
      proof (cases stop)
        case True then show ?thesis using rest by simp
      next
        case False
        then have "loop ext ds1 acc1 w1 = Some (Inr (acc', ds', w'))" using rest by simp
        then show ?thesis using IH by blast
      qed
      then show ?thesis using stacked by simp
    qed
  qed
qed

lemma getitem_loop_nothing:
  assumes "getitem_loop ext ds acc w = Some (Inr (acc', ds', w'))"
    and "p_list acc' = p_list acc"
  shows "acc' = acc" and "drains ext ds w ds' w'"
  using getitem_loop_nothing_aux [OF assms(1)] assms(2) by simp_all

lemma drains_loop:
  "drains ext ds w ds' w' \<Longrightarrow> getitem_loop ext ds acc w = Some (Inr (acc, ds', w'))"
proof (induction rule: drains.induct)
  case (drains_end ds w ext)
  then have "getitem_step ext ds acc w = Some (Inr (True, acc, ds, w))"
    by (simp add: getitem_step_def)
  then show ?case by (rule getitem_loop_stop)
next
  case (drains_skip ds w c p d v ext inds fs ls ds' w')
  then have "getitem_step ext ds acc w = Some (Inr (False, acc, d, v))"
    by (simp add: getitem_step_def)
  then show ?case using drains_skip.IH by (simp add: getitem_loop_continue)
qed

lemma demo_far_sample:
  "sample_input_center demo_far_ds (5 / 100) demo_world
     = Some (Inr (Some (0, [50, 50, 50]), demo_far_ds\<lparr>reg_sampling_i := 1\<rparr>, demo_world))"
  by (simp add: demo_far_ds_def demo_defs sampler_defs)

lemma demo_far_area:
  "get_input_area demo_ext (demo_far_ds\<lparr>reg_sampling_i := 1\<rparr>) 0 [50, 50, 50]
     = Inr ([], [], [], [])"
  by (simp add: demo_far_ds_def demo_defs area_defs nth_res_def)

lemma demo_far_END:
  "sample_input_center (demo_far_ds\<lparr>reg_sampling_i := 1\<rparr>) (5 / 100) demo_world
     = Some (Inr (None, demo_far_ds\<lparr>reg_sampling_i := 1\<rparr>, demo_world))"
  by (simp add: demo_far_ds_def demo_defs sampler_defs)

lemma demo_far_drains:
  "drains demo_ext demo_far_ds demo_world (demo_far_ds\<lparr>reg_sampling_i := 1\<rparr>) demo_world"
  by (rule drains_skip [OF demo_far_sample demo_far_area drains_end [OF demo_far_END]])

lemma demo_far_getitem:
  "getitem demo_ext False demo_far_ds demo_world
     = Some (Inr (Empty_points, demo_far_ds\<lparr>reg_sampling_i := 1\<rparr>,
                  demo_world\<lparr>slept := 1 / 10\<rparr>))"
proof -
  have l: "getitem_loop demo_ext demo_far_ds empty_lists demo_world
      = Some (Inr (empty_lists, demo_far_ds\<lparr>reg_sampling_i := 1\<rparr>, demo_world))"
    by (rule drains_loop [OF demo_far_drains])
  have e: "p_list empty_lists = []" by (simp add: empty_lists_def)
  have sl: "slept demo_world = 0" by (simp add: demo_world_def)
  show ?thesis by (simp add: getitem_def l e sl)
qed

text \<open>
  Claim C7, as amended.  When the loop ends with no region, \<open>__getitem__\<close> does not raise:
  it returns the dictionary with the empty \<open>points\<close> list after sleeping a tenth of a
  second.  That happens exactly when the sampler drains: every center it returns has an
  empty region, which the loop skips, until it returns the sentinel; such a call does
  return, with the state of the sampler where the sentinel left it.  So the empty batch
  comes only under the regular policy outside the validation role, with the sampler
  exhausted in the state reached, never under a random policy and never in the validation
  role.  The sentinel need not be the first draw of the call.
\<close>

theorem getitem_empty_batch:
  "(getitem_loop ext ds empty_lists w = Some (Inr (acc, ds1, w1)) \<and> p_list acc = []
      \<longrightarrow> getitem ext pre ds w
            = Some (Inr (Empty_points, ds1, w1\<lparr>slept := slept w1 + 1 / 10\<rparr>)))
   \<and> (drains ext ds w ds1 w1
      \<longrightarrow> getitem ext pre ds w
            = Some (Inr (Empty_points, ds1, w1\<lparr>slept := slept w1 + 1 / 10\<rparr>)))
   \<and> (getitem ext pre ds w = Some (Inr (Empty_points, ds', w'))
      \<longrightarrow> data_sampler ds = ''regular'' \<and> chosen_set ds \<noteq> ''validation''
          \<and> slept w' = slept w + 1 / 10
          \<and> drains ext ds w ds' (w'\<lparr>slept := slept w\<rparr>)
          \<and> sample_input_center ds' (5 / 100) (w'\<lparr>slept := slept w\<rparr>)
              = Some (Inr (None, ds', w'\<lparr>slept := slept w\<rparr>)))"
proof (intro conjI impI)
  assume "getitem_loop ext ds empty_lists w = Some (Inr (acc, ds1, w1)) \<and> p_list acc = []"
  then show "getitem ext pre ds w
            = Some (Inr (Empty_points, ds1, w1\<lparr>slept := slept w1 + 1 / 10\<rparr>))"
    by (simp add: getitem_def)
next
  assume "drains ext ds w ds1 w1"
  then have "getitem_loop ext ds empty_lists w = Some (Inr (empty_lists, ds1, w1))"
    by (rule drains_loop)
  then show "getitem ext pre ds w
            = Some (Inr (Empty_points, ds1, w1\<lparr>slept := slept w1 + 1 / 10\<rparr>))"
    by (simp add: getitem_def empty_lists_def)
next
  assume g: "getitem ext pre ds w = Some (Inr (Empty_points, ds', w'))"
  then obtain acc0 w0 where
    l: "getitem_loop ext ds empty_lists w = Some (Inr (acc0, ds', w0))"
    and em: "p_list acc0 = []" and wq: "w' = w0\<lparr>slept := slept w0 + 1 / 10\<rparr>"
    by (auto simp: getitem_def split: option.splits sum.splits if_splits)
  have e: "exit_ok ds acc0 ds' w0" and t: "step_ok ds empty_lists w acc0 ds' w0"
    using getitem_loop_inv [OF l] by simp_all
  have sl: "slept w0 = slept w" using t by (simp add: step_ok_def)
  have w0_eq: "w'\<lparr>slept := slept w\<rparr> = w0" using wq sl by simp
  have "p_list acc0 = p_list empty_lists" using em by (simp add: empty_lists_def)
  then have d: "drains ext ds w ds' w0" using getitem_loop_nothing(2) [OF l] by simp
  show "data_sampler ds = ''regular''" and "chosen_set ds \<noteq> ''validation''"
    using e em by (simp_all add: exit_ok_def)
  show "slept w' = slept w + 1 / 10" using wq sl by simp
  show "drains ext ds w ds' (w'\<lparr>slept := slept w\<rparr>)" using d w0_eq by simp
  show "sample_input_center ds' (5 / 100) (w'\<lparr>slept := slept w\<rparr>)
              = Some (Inr (None, ds', w'\<lparr>slept := slept w\<rparr>))"
    using e em w0_eq by (simp add: exit_ok_def)
qed

theorem getitem_empty_batch_witness:
  "getitem_loop demo_ext (demo_ds\<lparr>reg_sampling_i := 2\<rparr>) empty_lists demo_world
     = Some (Inr (empty_lists, demo_ds\<lparr>reg_sampling_i := 2\<rparr>, demo_world))
   \<and> p_list empty_lists = []
   \<and> getitem demo_ext False (demo_ds\<lparr>reg_sampling_i := 2\<rparr>) demo_world
     = Some (Inr (Empty_points, demo_ds\<lparr>reg_sampling_i := 2\<rparr>, demo_world\<lparr>slept := 1 / 10\<rparr>))
   \<and> data_sampler (demo_ds\<lparr>reg_sampling_i := 2\<rparr>) = ''regular''
   \<and> chosen_set (demo_ds\<lparr>reg_sampling_i := 2\<rparr>) \<noteq> ''validation''
   \<and> drains demo_ext (demo_ds\<lparr>reg_sampling_i := 2\<rparr>) demo_world
        (demo_ds\<lparr>reg_sampling_i := 2\<rparr>) demo_world
   \<and> sample_input_center (demo_ds\<lparr>reg_sampling_i := 2\<rparr>) (5 / 100) demo_world
     = Some (Inr (None, demo_ds\<lparr>reg_sampling_i := 2\<rparr>, demo_world))
   \<and> drains demo_ext demo_far_ds demo_world (demo_far_ds\<lparr>reg_sampling_i := 1\<rparr>) demo_world
   \<and> getitem demo_ext True demo_far_ds demo_world
     = Some (Inr (Empty_points, demo_far_ds\<lparr>reg_sampling_i := 1\<rparr>,
                  demo_world\<lparr>slept := 1 / 10\<rparr>))"
proof -
  let ?ds = "demo_ds\<lparr>reg_sampling_i := 2\<rparr>"
  have s: "sample_input_center ?ds (5 / 100) demo_world = Some (Inr (None, ?ds, demo_world))"
    by (simp add: demo_defs sampler_defs)
  then have st: "getitem_step demo_ext ?ds empty_lists demo_world
      = Some (Inr (True, empty_lists, ?ds, demo_world))"
    by (simp add: getitem_step_def)
  have l: "getitem_loop demo_ext ?ds empty_lists demo_world
     = Some (Inr (empty_lists, ?ds, demo_world))"
    by (rule getitem_loop_stop [OF st])
  have e: "p_list empty_lists = []" by (simp add: empty_lists_def)
  have sl: "slept demo_world = 0" by (simp add: demo_world_def)
  have sw: "demo_world\<lparr>slept := 1 / 10\<rparr>\<lparr>slept := 0\<rparr> = demo_world"
    by (simp add: demo_world_def)
  note T = getitem_empty_batch [of demo_ext ?ds demo_world empty_lists ?ds demo_world False
      ?ds "demo_world\<lparr>slept := 1 / 10\<rparr>"]
  have "getitem demo_ext False ?ds demo_world
     = Some (Inr (Empty_points, ?ds, demo_world\<lparr>slept := slept demo_world + 1 / 10\<rparr>))"
    using mp [OF conjunct1 [OF T] conjI [OF l e]] .
  then have g: "getitem demo_ext False ?ds demo_world
     = Some (Inr (Empty_points, ?ds, demo_world\<lparr>slept := 1 / 10\<rparr>))"
    by (simp add: sl)
  note U = mp [OF conjunct2 [OF conjunct2 [OF T]] g]
  have r: "data_sampler ?ds = ''regular''" "chosen_set ?ds \<noteq> ''validation''"
    using U by blast+
  have d: "drains demo_ext ?ds demo_world ?ds demo_world"
    using U by (simp add: sl sw)
  note F = getitem_empty_batch [of demo_ext demo_far_ds demo_world empty_lists
      "demo_far_ds\<lparr>reg_sampling_i := 1\<rparr>" demo_world True
      "demo_far_ds\<lparr>reg_sampling_i := 1\<rparr>" "demo_world\<lparr>slept := 1 / 10\<rparr>"]
  have "getitem demo_ext True demo_far_ds demo_world
     = Some (Inr (Empty_points, demo_far_ds\<lparr>reg_sampling_i := 1\<rparr>,
                  demo_world\<lparr>slept := slept demo_world + 1 / 10\<rparr>))"
    using mp [OF conjunct1 [OF conjunct2 [OF F]] demo_far_drains] .
  then have f: "getitem demo_ext True demo_far_ds demo_world
     = Some (Inr (Empty_points, demo_far_ds\<lparr>reg_sampling_i := 1\<rparr>,
                  demo_world\<lparr>slept := 1 / 10\<rparr>))"
    by (simp add: sl)
  show ?thesis using l e g r d s demo_far_drains f by simp
qed

text \<open>
  The claim as stated fails: with a queue of one center far from every point of the scene,
  the first draw of the call is that center, not the sentinel; its region is empty and is
  skipped, the second draw is the sentinel, and the call returns the empty batch.
\<close>

theorem getitem_empty_after_skipped_region:
  "sample_input_center demo_far_ds (5 / 100) demo_world
     = Some (Inr (Some (0, [50, 50, 50]), demo_far_ds\<lparr>reg_sampling_i := 1\<rparr>, demo_world))
   \<and> get_input_area demo_ext (demo_far_ds\<lparr>reg_sampling_i := 1\<rparr>) 0 [50, 50, 50]
     = Inr ([], [], [], [])
   \<and> getitem demo_ext False demo_far_ds demo_world
     = Some (Inr (Empty_points, demo_far_ds\<lparr>reg_sampling_i := 1\<rparr>,
                  demo_world\<lparr>slept := 1 / 10\<rparr>))"
  using demo_far_sample demo_far_area demo_far_getitem by simp

section \<open>Properties of the calibrator\<close>






















end
